theory Spec2Isabelle
  imports Main "HOL-Library.Sublist" "HOL-Library.Char_ord" "HOL-Library.AList"
begin

section \<open>Python values the code relies on\<close>

text \<open>
  A text the program handles (a prompt, a keyword, a pattern, a name) is modelled as a
  \<open>string\<close> whose characters are the code points below 256, one character per code
  point, so that \<open>length\<close> is Python's \<open>len\<close>. The checksum validator, a function
  of one \<open>str\<close> and nothing else, is modelled on every \<open>str\<close>: its argument is a list
  of code points, any natural numbers, and \<open>codes\<close> takes a text of the model there.
  Exceptions are values of \<open>error\<close>; a function that can raise returns \<open>error + 'a\<close>.
\<close>

datatype error = ValueError | TypeError | KeyError | IntegrityError | OperationalError

definition codes :: "string \<Rightarrow> nat list" where
  "codes s = map of_char s"

text \<open>The characters below 256 of the class \<open>\s\<close> of a \<open>str\<close> pattern: tab to
  carriage return, the four information separators, space, NEL and the no-break
  space.\<close>

definition re_space :: "char \<Rightarrow> bool" where
  "re_space c = (of_char c \<in> {9, 10, 11, 12, 13, 28, 29, 30, 31, 32, 133, 160 :: nat})"

text \<open>\<open>str.lower\<close> on the code points below 256: the letters \<open>A\<close> to \<open>Z\<close> and the
  capital letters from 192 to 222 (215, the multiplication sign, is no letter) move up
  by 32. \<open>str.upper\<close> moves \<open>a\<close> to \<open>z\<close> and the small letters from 224 to 254
  (247, the division sign, is no letter) down by 32, and writes the sharp s (223) as
  \<open>SS\<close>, so the result can be longer than the argument. The capital forms of the micro
  sign (181) and of the y with diaeresis (255) are code points beyond 255, which a text
  of the model cannot hold: the two are left as they are here, and no name in the
  tables of the code has them.\<close>

definition lower_char :: "char \<Rightarrow> char" where
  "lower_char c =
     (if of_char c \<in> {65 ..< 91 :: nat} \<or> (of_char c \<in> {192 ..< 223 :: nat} \<and> of_char c \<noteq> (215 :: nat))
      then char_of (of_char c + 32 :: nat) else c)"

definition upper_char :: "char \<Rightarrow> string" where
  "upper_char c =
     (if of_char c \<in> {97 ..< 123 :: nat} \<or> (of_char c \<in> {224 ..< 255 :: nat} \<and> of_char c \<noteq> (247 :: nat))
      then [char_of (of_char c - 32 :: nat)]
      else if of_char c = (223 :: nat) then ''SS''
      else [c])"

definition lower :: "string \<Rightarrow> string" where
  "lower s = map lower_char s"

definition upper :: "string \<Rightarrow> string" where
  "upper s = concat (map upper_char s)"

text \<open>\<open>sub in text\<close> on strings.\<close>

fun str_in :: "string \<Rightarrow> string \<Rightarrow> bool" where
  "str_in sub [] = (sub = [])"
| "str_in sub (c # cs) = (prefix sub (c # cs) \<or> str_in sub cs)"

text \<open>Slices \<open>s[:i]\<close> and \<open>s[j:]\<close>: a negative index counts from the end, and an index
  out of range is clamped.\<close>

definition slice_index :: "'a list \<Rightarrow> int \<Rightarrow> nat" where
  "slice_index s i = (if i < 0 then nat (int (length s) + i) else min (nat i) (length s))"

definition slice_to :: "'a list \<Rightarrow> int \<Rightarrow> 'a list" where
  "slice_to s i = take (slice_index s i) s"

definition slice_from :: "'a list \<Rightarrow> int \<Rightarrow> 'a list" where
  "slice_from s j = drop (slice_index s j) s"

text \<open>\<open>d.copy(); d.update(other)\<close> on a dictionary kept as an association list in
  insertion order: a key already present keeps its place and takes the new value, a
  new key goes to the end.\<close>

definition dict_update :: "('k \<times> 'v) list \<Rightarrow> ('k \<times> 'v) list \<Rightarrow> ('k \<times> 'v) list" where
  "dict_update d other = fold (\<lambda>(k, v). AList.update k v) other d"

text \<open>\<open>str(n)\<close> for a natural number.\<close>

fun digits_of :: "nat \<Rightarrow> nat \<Rightarrow> string" where
  "digits_of 0 n = []"
| "digits_of (Suc fuel) n =
     (if n < 10 then [char_of (48 + n)]
      else digits_of fuel (n div 10) @ [char_of (48 + n mod 10)])"

definition str_of_nat :: "nat \<Rightarrow> string" where
  "str_of_nat n = digits_of (Suc n) n"

section \<open>The library the code calls\<close>

text \<open>
  The regular-expression engine, the hash function, the clock, the Unicode tables and
  the storage engine are not code of the repository; they are parameters of the model. A match object carries its span, the
  text of group 0 and its capture groups.
\<close>

record re_match =
  m_start :: int
  m_end :: int
  m_group :: string
  m_groups :: "string option list"

text \<open>The five fields \<open>calculate_hash\<close> puts into \<open>hash_data\<close>; \<open>None\<close> is Python's
  \<open>None\<close>.\<close>

record hash_data =
  hd_timestamp :: "string option"
  hd_event_type :: "string option"
  hd_original_text :: "string option"
  hd_action_taken :: "string option"
  hd_prev_hash :: string

text \<open>
  \<^item> \<open>re_finditer p t\<close> is \<open>list(re.finditer(p, t, re.IGNORECASE))\<close>;
  \<^item> \<open>re_search p t\<close> is the truth value of \<open>re.search(p, t, re.IGNORECASE)\<close>;
  \<^item> \<open>sha256_json d\<close> is
    \<open>hashlib.sha256(json.dumps(d, sort_keys=True).encode()).hexdigest()\<close>;
  \<^item> \<open>now_isoformat\<close> is \<open>datetime.now().isoformat()\<close>, \<open>today\<close> is
    \<open>datetime.now().date().isoformat()\<close>, \<open>current_timestamp\<close> is the storage
    engine's \<open>CURRENT_TIMESTAMP\<close>;
  \<^item> \<open>wide_space\<close>, \<open>wide_isdigit\<close> and \<open>wide_decimal\<close> are the Unicode tables
    beyond code point 255: whether a character is of the class \<open>\s\<close>, whether
    \<open>str.isdigit\<close> holds of it, and the value \<open>int\<close> gives it (\<open>None\<close> where
    \<open>int\<close> raises \<open>ValueError\<close>);
  \<^item> \<open>second_writer_refused\<close> says whether the storage engine refuses a write from
    a second connection while another connection has an uncommitted write. SQLite
    admits one writer at a time, so for SQLite it is \<open>True\<close>: the second connection's
    statement fails with \<open>OperationalError\<close> (database is locked) once its busy
    timeout has passed.
\<close>

record lib =
  re_finditer :: "string \<Rightarrow> string \<Rightarrow> re_match list"
  re_search :: "string \<Rightarrow> string \<Rightarrow> bool"
  sha256_json :: "hash_data \<Rightarrow> string"
  now_isoformat :: string
  today :: string
  current_timestamp :: string
  wide_space :: "nat \<Rightarrow> bool"
  wide_isdigit :: "nat \<Rightarrow> bool"
  wide_decimal :: "nat \<Rightarrow> nat option"
  second_writer_refused :: bool

section \<open>patterns.py\<close>

record PIIMatch =
  pii_type :: string
  pii_name :: string
  pii_value :: "string option"
  pii_start :: int
  pii_end :: int
  pii_severity :: string
  pii_confidence :: nat

record pattern_config =
  pc_pattern :: string
  pc_name :: string
  pc_severity :: string
  pc_description :: string

text \<open>Regular expressions are kept as their source text. A string literal cannot hold
  a backslash, so the sources are written with \<open>~\<close> in its place (no pattern of the code
  contains \<open>~\<close>) and \<open>rx\<close> puts the backslashes back.\<close>

definition rx :: "string \<Rightarrow> string" where
  "rx s = map (\<lambda>c. if c = CHR ''~'' then CHR 0x5C else c) s"

definition PII_PATTERNS :: "(string \<times> pattern_config) list" where
  \<open>PII_PATTERNS = [
    (''ssn'', \<lparr>pc_pattern = rx ''~b~d{3}-~d{2}-~d{4}~b'',
       pc_name = ''Social Security Number'', pc_severity = ''high'',
       pc_description = ''US Social Security Number''\<rparr>),
    (''email'', \<lparr>pc_pattern = rx ''~b[a-zA-Z0-9._%+-]+@[a-zA-Z0-9.-]+~.[a-zA-Z]{2,}~b'',
       pc_name = ''Email Address'', pc_severity = ''medium'',
       pc_description = ''Email addresses''\<rparr>),
    (''phone_us'', \<lparr>pc_pattern = rx ''~b(?:~+?1[-.~s]?)?~(?~d{3}~)?[-.~s]?~d{3}[-.~s]?~d{4}~b'',
       pc_name = ''Phone Number (US)'', pc_severity = ''medium'',
       pc_description = ''US phone numbers''\<rparr>),
    (''credit_card'', \<lparr>pc_pattern = rx ''~b(?:~d{4}[-~s]?){3}~d{4}~b'',
       pc_name = ''Credit Card Number'', pc_severity = ''high'',
       pc_description = ''Credit card numbers''\<rparr>),
    (''ip_address'', \<lparr>pc_pattern = rx (''~b(?:(?:25[0-5]|2[0-4][0-9]|[01]?[0-9][0-9]?)~.){3}''
         @ ''(?:25[0-5]|2[0-4][0-9]|[01]?[0-9][0-9]?)~b''),
       pc_name = ''IP Address'', pc_severity = ''low'',
       pc_description = ''IPv4 addresses''\<rparr>),
    (''aws_key'', \<lparr>pc_pattern = rx ''~b(?:AKIA|ABIA|ACCA|ASIA)[A-Z0-9]{16}~b'',
       pc_name = ''AWS Access Key'', pc_severity = ''critical'',
       pc_description = ''AWS access key IDs''\<rparr>),
    (''api_key_generic'', \<lparr>pc_pattern = rx (''~b(?:api[_-]?key|apikey|api[_-]?token)["~s:=]+["~''
         @ [CHR 0x27] @ ''`]?([a-zA-Z0-9_~-]{20,})["~'' @ [CHR 0x27] @ ''`]?~b''),
       pc_name = ''API Key'', pc_severity = ''high'',
       pc_description = ''Generic API keys''\<rparr>),
    (''github_token'', \<lparr>pc_pattern = rx ''~b(?:ghp|gho|ghu|ghs|ghr)_[a-zA-Z0-9]{36}~b'',
       pc_name = ''GitHub Token'', pc_severity = ''critical'',
       pc_description = ''GitHub personal access tokens''\<rparr>),
    (''slack_token'', \<lparr>pc_pattern = rx ''~bxox[baprs]-[a-zA-Z0-9-]+~b'',
       pc_name = ''Slack Token'', pc_severity = ''high'',
       pc_description = ''Slack API tokens''\<rparr>),
    (''private_key'', \<lparr>pc_pattern = rx ''-----BEGIN (?:RSA |EC )?PRIVATE KEY-----'',
       pc_name = ''Private Key'', pc_severity = ''critical'',
       pc_description = ''Private cryptographic keys''\<rparr>)]\<close>

definition EXTENDED_PATTERNS :: "(string \<times> pattern_config) list" where
  "EXTENDED_PATTERNS = [
    (''passport'', \<lparr>pc_pattern = rx ''~b[A-Z]{1,2}~d{6,9}~b'',
       pc_name = ''Passport Number'', pc_severity = ''high'',
       pc_description = ''Passport numbers''\<rparr>),
    (''drivers_license'', \<lparr>pc_pattern = rx ''~b[A-Z]{1,2}~d{5,8}~b'',
       pc_name = ''Driver License'', pc_severity = ''medium'',
       pc_description = ''Driver license numbers''\<rparr>),
    (''iban'', \<lparr>pc_pattern = rx ''~b[A-Z]{2}~d{2}[A-Z0-9]{4}~d{7}([A-Z0-9]?){0,16}~b'',
       pc_name = ''IBAN'', pc_severity = ''high'',
       pc_description = ''International Bank Account Number''\<rparr>),
    (''bitcoin_address'', \<lparr>pc_pattern = rx ''~b[13][a-km-zA-HJ-NP-Z1-9]{25,34}~b'',
       pc_name = ''Bitcoin Address'', pc_severity = ''medium'',
       pc_description = ''Bitcoin wallet addresses''\<rparr>),
    (''ethereum_address'', \<lparr>pc_pattern = rx ''~b0x[a-fA-F0-9]{40}~b'',
       pc_name = ''Ethereum Address'', pc_severity = ''medium'',
       pc_description = ''Ethereum wallet addresses''\<rparr>)]"

subsection \<open>validate_credit_card\<close>

text \<open>The three facts about a character the validator uses. Below 256 they are
  written out: the class \<open>\s\<close> as above; \<open>str.isdigit\<close> holds of \<open>0\<close> to \<open>9\<close> and of
  the superscripts two, three and one; \<open>int\<close> gives \<open>0\<close> to \<open>9\<close> their values and
  raises \<open>ValueError\<close> on every other character, the superscripts too. Beyond 255 they
  are the tables of the library.\<close>

definition space_point :: "lib \<Rightarrow> nat \<Rightarrow> bool" where
  "space_point L c =
     (if c < 256 then c \<in> {9, 10, 11, 12, 13, 28, 29, 30, 31, 32, 133, 160} else wide_space L c)"

definition digit_point :: "lib \<Rightarrow> nat \<Rightarrow> bool" where
  "digit_point L c =
     (if c < 256 then c \<in> {48 ..< 58} \<or> c \<in> {178, 179, 185} else wide_isdigit L c)"

definition decimal_value :: "lib \<Rightarrow> nat \<Rightarrow> nat option" where
  "decimal_value L c =
     (if c < 256 then (if c \<in> {48 ..< 58} then Some (c - 48) else None) else wide_decimal L c)"

text \<open>\<open>str.isdigit\<close>: a non-empty string of digit characters. \<open>int(digit)\<close> on a
  one-character string.\<close>

definition isdigit :: "lib \<Rightarrow> nat list \<Rightarrow> bool" where
  "isdigit L s = (s \<noteq> [] \<and> list_all (digit_point L) s)"

definition py_int :: "lib \<Rightarrow> nat \<Rightarrow> error + nat" where
  "py_int L c = (case decimal_value L c of Some v \<Rightarrow> Inr v | None \<Rightarrow> Inl ValueError)"

text \<open>The loop over \<open>enumerate(reverse_digits)\<close>, with the index and the running
  total as arguments.\<close>

fun luhn_loop :: "lib \<Rightarrow> nat \<Rightarrow> nat list \<Rightarrow> nat \<Rightarrow> error + nat" where
  "luhn_loop L i [] tot = Inr tot"
| "luhn_loop L i (digit # rest) tot =
     (case py_int L digit of
        Inl e \<Rightarrow> Inl e
      | Inr n \<Rightarrow>
          (let n' = (if i mod 2 = 1
                     then (let n2 = n * 2 in if n2 > 9 then n2 - 9 else n2)
                     else n)
           in luhn_loop L (i + 1) rest (tot + n')))"

text \<open>\<open>re.sub(r'[-\s]', '', number)\<close> takes out the hyphen (code point 45) and the
  characters of the class \<open>\s\<close>.\<close>

definition validate_credit_card :: "lib \<Rightarrow> nat list \<Rightarrow> error + bool" where
  "validate_credit_card L number =
     (let number' = filter (\<lambda>c. \<not> (c = 45 \<or> space_point L c)) number
      in if \<not> isdigit L number' then Inr False
         else (case luhn_loop L 0 (rev number') 0 of
                 Inl e \<Rightarrow> Inl e
               | Inr tot \<Rightarrow> Inr (tot mod 10 = 0)))"

subsection \<open>detect_pii\<close>

text \<open>The inner loop over the matches of one pattern.\<close>

fun pattern_matches ::
  "lib \<Rightarrow> string \<Rightarrow> pattern_config \<Rightarrow> re_match list \<Rightarrow> error + PIIMatch list" where
  "pattern_matches L ptype config [] = Inr []"
| "pattern_matches L ptype config (m # ms) =
     (let keep = (if ptype = ''credit_card''
                  then validate_credit_card L (codes (m_group m))
                  else Inr True)
      in case keep of
           Inl e \<Rightarrow> Inl e
         | Inr ok \<Rightarrow>
             (case pattern_matches L ptype config ms of
                Inl e \<Rightarrow> Inl e
              | Inr rest \<Rightarrow>
                  if \<not> ok then Inr rest
                  else Inr (\<lparr>pii_type = ptype, pii_name = pc_name config,
                             pii_value = (case m_groups m of [] \<Rightarrow> Some (m_group m) | g # _ \<Rightarrow> g),
                             pii_start = m_start m, pii_end = m_end m,
                             pii_severity = pc_severity config, pii_confidence = 1\<rparr> # rest)))"

text \<open>The outer loop over \<open>patterns.items()\<close>.\<close>

fun all_matches :: "lib \<Rightarrow> string \<Rightarrow> (string \<times> pattern_config) list \<Rightarrow> error + PIIMatch list" where
  "all_matches L text [] = Inr []"
| "all_matches L text ((ptype, config) # ps) =
     (case pattern_matches L ptype config (re_finditer L (pc_pattern config) text) of
        Inl e \<Rightarrow> Inl e
      | Inr found \<Rightarrow>
          (case all_matches L text ps of
             Inl e \<Rightarrow> Inl e
           | Inr rest \<Rightarrow> Inr (found @ rest)))"

definition detect_pii :: "lib \<Rightarrow> string \<Rightarrow> bool \<Rightarrow> error + PIIMatch list" where
  "detect_pii L text extended =
     (let patterns = (if extended then dict_update PII_PATTERNS EXTENDED_PATTERNS
                      else PII_PATTERNS)
      in case all_matches L text patterns of
           Inl e \<Rightarrow> Inl e
         | Inr matches \<Rightarrow> Inr (sort_key pii_start matches))"

subsection \<open>redact_pii\<close>

text \<open>The redaction style is whatever value the caller passes; a style that is not a
  string cannot be concatenated and raises \<open>TypeError\<close>.\<close>

datatype pyval = PyNone | PyBool bool | PyInt int | PyStr string | PyDict "(string \<times> pyval) list"

definition replacement :: "pyval \<Rightarrow> PIIMatch \<Rightarrow> error + string" where
  "replacement redaction_style m =
     (if redaction_style = PyStr ''[REDACTED-TYPE]''
      then Inr (''[REDACTED-'' @ upper (pii_name m) @ '']'')
      else if redaction_style = PyStr ''[REDACTED-XXX]''
      then Inr (''['' @ replicate (nat (pii_end m - pii_start m - 2)) CHR ''X'' @ '']'')
      else (case redaction_style of PyStr s \<Rightarrow> Inr s | _ \<Rightarrow> Inl TypeError))"

fun redact_loop :: "pyval \<Rightarrow> PIIMatch list \<Rightarrow> string \<Rightarrow> error + string" where
  "redact_loop redaction_style [] redacted = Inr redacted"
| "redact_loop redaction_style (m # ms) redacted =
     (case replacement redaction_style m of
        Inl e \<Rightarrow> Inl e
      | Inr r \<Rightarrow>
          redact_loop redaction_style ms
            (slice_to redacted (pii_start m) @ r @ slice_from redacted (pii_end m)))"

text \<open>\<open>sorted(matches, key=..., reverse=True)\<close> is stable: equal keys keep their
  order.\<close>

definition sorted_reverse :: "('a \<Rightarrow> int) \<Rightarrow> 'a list \<Rightarrow> 'a list" where
  "sorted_reverse key xs = rev (sort_key key (rev xs))"

definition redact_pii :: "string \<Rightarrow> PIIMatch list \<Rightarrow> pyval \<Rightarrow> error + string" where
  "redact_pii text matches redaction_style =
     (if matches = [] then Inr text
      else redact_loop redaction_style (sorted_reverse pii_start matches) text)"

section \<open>policies.py\<close>

datatype PolicyAction = ALLOW | WARN | BLOCK | REDACT

fun action_value :: "PolicyAction \<Rightarrow> string" where
  "action_value ALLOW = ''allow''"
| "action_value WARN = ''warn''"
| "action_value BLOCK = ''block''"
| "action_value REDACT = ''redact''"

record PolicyViolation =
  pv_policy_name :: string
  pv_category :: string
  pv_matched_keyword :: string
  pv_action :: PolicyAction
  pv_message :: string
  pv_severity :: string
  pv_confidence :: nat

text \<open>A policy is a dictionary; a field is \<open>None\<close> when the key is absent.\<close>

record policy_config =
  pol_category :: "string option"
  pol_keywords :: "string list option"
  pol_regex_patterns :: "string list option"
  pol_action :: "PolicyAction option"
  pol_message :: "string option"
  pol_severity :: "string option"

definition POLICY_RULES :: "(string \<times> policy_config) list" where
  "POLICY_RULES = [
    (''medical_advice'', \<lparr>pol_category = Some ''medical'',
       pol_keywords = Some [''medical advice'', ''diagnosis'', ''diagnose'', ''prescribe'',
         ''prescription'', ''treatment plan'', ''medication'', ''dosage'', ''symptoms indicate'',
         ''medical opinion'', ''health advice''],
       pol_regex_patterns = Some [
         rx ''~b(?:what|which) (?:medication|medicine|drug)s?~b'',
         rx ''~b(?:should i|do i need to) (?:take|see a doctor)~b'',
         rx ''~bdiagnos(?:is|e) (?:my|these) symptoms?~b''],
       pol_action = Some BLOCK,
       pol_message = Some ''Medical advice detected. Please consult a licensed healthcare professional.'',
       pol_severity = Some ''high''\<rparr>),
    (''legal_advice'', \<lparr>pol_category = Some ''legal'',
       pol_keywords = Some [''legal advice'', ''legal counsel'', ''lawsuit'', ''sue'', ''legal action'',
         ''legal rights'', ''attorney'', ''lawyer'', ''legal opinion'', ''contract review''],
       pol_regex_patterns = Some [
         rx ''~b(?:can|should) i sue~b'',
         rx ''~bis this (?:legal|illegal)~b'',
         rx ''~bwhat are my legal (?:rights|options)~b''],
       pol_action = Some BLOCK,
       pol_message = Some ''Legal advice detected. Please consult a qualified attorney.'',
       pol_severity = Some ''high''\<rparr>),
    (''financial_advice'', \<lparr>pol_category = Some ''financial'',
       pol_keywords = Some [''investment advice'', ''stock tips'', ''financial planning'',
         ''buy this stock'', ''invest in'', ''trading strategy'', ''portfolio advice'',
         ''retirement planning'', ''tax advice''],
       pol_regex_patterns = Some [
         rx ''~b(?:should i|when to) (?:buy|sell) (?:stock|crypto)~b'',
         rx ''~b(?:best|good) investment (?:strategy|opportunity)~b''],
       pol_action = Some WARN,
       pol_message = Some ''Financial advice detected. Please consult a licensed financial advisor.'',
       pol_severity = Some ''medium''\<rparr>),
    (''harmful_content'', \<lparr>pol_category = Some ''safety'',
       pol_keywords = Some [''self harm'', ''suicide'', ''hurt myself'', ''end my life'',
         ''harmful'', ''dangerous activity''],
       pol_regex_patterns = Some [
         rx ''~bhow to (?:make|build|create) (?:bomb|weapon|explosive)~b'',
         rx ''~b(?:ways to|how to) (?:harm|hurt|injure)~b''],
       pol_action = Some BLOCK,
       pol_message = Some ''Content policy violation. This type of content is not allowed.'',
       pol_severity = Some ''critical''\<rparr>),
    (''internal_data'', \<lparr>pol_category = Some ''confidential'',
       pol_keywords = Some [''confidential'', ''internal only'', ''do not share'', ''proprietary'',
         ''trade secret'', ''company confidential'', ''restricted''],
       pol_regex_patterns = Some [
         rx ''~b(?:internal|confidential) (?:document|information|data)~b'',
         rx ''~bdo not (?:share|distribute|disclose)~b''],
       pol_action = Some WARN,
       pol_message = Some ''Potentially confidential information detected.'',
       pol_severity = Some ''medium''\<rparr>)]"

definition EXTENDED_POLICIES :: "(string \<times> policy_config) list" where
  "EXTENDED_POLICIES = [
    (''competitive_intel'', \<lparr>pol_category = Some ''business'',
       pol_keywords = Some [''competitor analysis'', ''competitor pricing'', ''steal customers'',
         ''poach employees'', ''competitor secrets''],
       pol_regex_patterns = None,
       pol_action = Some WARN,
       pol_message = Some ''Competitive intelligence query detected.'',
       pol_severity = Some ''low''\<rparr>),
    (''personal_info_request'', \<lparr>pol_category = Some ''privacy'',
       pol_keywords = Some [''home address'', ''personal phone'', ''family members'',
         ''social security'', ''date of birth'', ''mothers maiden name''],
       pol_regex_patterns = None,
       pol_action = Some WARN,
       pol_message = Some ''Request for personal information detected.'',
       pol_severity = Some ''medium''\<rparr>),
    (''code_injection'', \<lparr>pol_category = Some ''security'',
       pol_keywords = None,
       pol_regex_patterns = Some [
         rx ''<script[^>]*>.*?</script>'',
         rx ''(?:SELECT|INSERT|UPDATE|DELETE|DROP|CREATE|ALTER).*(?:FROM|INTO|TABLE)'',
         rx ''(?:~$~{|~{~{)[^}]+(?:~}|~}~})''],
       pol_action = Some BLOCK,
       pol_message = Some ''Potential code injection detected.'',
       pol_severity = Some ''high''\<rparr>)]"

text \<open>The body of the loop over \<open>policies.items()\<close>: the keywords are tried first, the
  patterns only when no keyword matched; the first trigger found is the one recorded.\<close>

definition check_policy :: "lib \<Rightarrow> string \<Rightarrow> string \<Rightarrow> policy_config \<Rightarrow> PolicyViolation option" where
  "check_policy L text policy_name config =
     (let text_lower = lower text;
          by_keyword = (case pol_keywords config of
                          None \<Rightarrow> None
                        | Some kws \<Rightarrow> find (\<lambda>keyword. str_in (lower keyword) text_lower) kws);
          matched_keyword =
            (case by_keyword of
               Some keyword \<Rightarrow> Some keyword
             | None \<Rightarrow>
                 (case pol_regex_patterns config of
                    None \<Rightarrow> None
                  | Some pats \<Rightarrow>
                      map_option (\<lambda>pattern. ''pattern: '' @ pattern)
                        (find (\<lambda>pattern. re_search L pattern text) pats)))
      in case matched_keyword of
           None \<Rightarrow> None
         | Some k \<Rightarrow>
             Some \<lparr>pv_policy_name = policy_name,
                   pv_category = (case pol_category config of None \<Rightarrow> ''general'' | Some c \<Rightarrow> c),
                   pv_matched_keyword = k,
                   pv_action = (case pol_action config of None \<Rightarrow> WARN | Some a \<Rightarrow> a),
                   pv_message = (case pol_message config of
                                   None \<Rightarrow> ''Policy violation detected'' | Some m \<Rightarrow> m),
                   pv_severity = (case pol_severity config of None \<Rightarrow> ''medium'' | Some s \<Rightarrow> s),
                   pv_confidence = 1\<rparr>)"

definition check_policies ::
  "lib \<Rightarrow> string \<Rightarrow> bool \<Rightarrow> (string \<times> policy_config) list option \<Rightarrow> PolicyViolation list" where
  "check_policies L text extended custom_policies =
     (let policies = POLICY_RULES;
          policies = (if extended then dict_update policies EXTENDED_POLICIES else policies);
          policies = (case custom_policies of
                        None \<Rightarrow> policies
                      | Some custom \<Rightarrow>
                          if custom = [] then policies else dict_update policies custom)
      in List.map_filter (\<lambda>(policy_name, config). check_policy L text policy_name config) policies)"

definition should_block :: "PolicyViolation list \<Rightarrow> bool" where
  "should_block violations = list_ex (\<lambda>v. pv_action v = BLOCK) violations"

section \<open>The summaries\<close>

text \<open>\<open>d[k] = d.get(k, 0) + 1\<close> on a dictionary in insertion order, and \<open>d[k] += 1\<close>,
  which raises \<open>KeyError\<close> on a key the dictionary does not have.\<close>

definition count_up :: "(string \<times> nat) list \<Rightarrow> string \<Rightarrow> (string \<times> nat) list" where
  "count_up d k = AList.update k (case map_of d k of None \<Rightarrow> 1 | Some n \<Rightarrow> n + 1) d"

definition increment :: "(string \<times> nat) list \<Rightarrow> string \<Rightarrow> error + (string \<times> nat) list" where
  "increment d k = (case map_of d k of None \<Rightarrow> Inl KeyError | Some n \<Rightarrow> Inr (AList.update k (n + 1) d))"

record pii_summary =
  ps_total_count :: nat
  ps_by_type :: "(string \<times> nat) list"
  ps_by_severity :: "(string \<times> nat) list"
  ps_unique_types :: "string set"

fun pii_summary_loop :: "PIIMatch list \<Rightarrow> pii_summary \<Rightarrow> error + pii_summary" where
  "pii_summary_loop [] summary = Inr summary"
| "pii_summary_loop (m # ms) summary =
     (case increment (ps_by_severity summary) (pii_severity m) of
        Inl e \<Rightarrow> Inl e
      | Inr sev \<Rightarrow>
          pii_summary_loop ms
            (summary\<lparr>ps_by_type := count_up (ps_by_type summary) (pii_type m),
                      ps_by_severity := sev,
                      ps_unique_types := insert (pii_name m) (ps_unique_types summary)\<rparr>))"

definition get_pii_summary :: "PIIMatch list \<Rightarrow> error + pii_summary" where
  "get_pii_summary matches =
     pii_summary_loop matches
       \<lparr>ps_total_count = length matches, ps_by_type = [],
        ps_by_severity = [(''critical'', 0), (''high'', 0), (''medium'', 0), (''low'', 0)],
        ps_unique_types = {}\<rparr>"

record policy_summary =
  pls_total_violations :: nat
  pls_should_block :: bool
  pls_by_category :: "(string \<times> nat) list"
  pls_by_severity :: "(string \<times> nat) list"
  pls_by_action :: "(string \<times> nat) list"
  pls_messages :: "string list"

fun policy_summary_loop :: "PolicyViolation list \<Rightarrow> policy_summary \<Rightarrow> error + policy_summary" where
  "policy_summary_loop [] summary = Inr summary"
| "policy_summary_loop (v # vs) summary =
     (case increment (pls_by_severity summary) (pv_severity v) of
        Inl e \<Rightarrow> Inl e
      | Inr sev \<Rightarrow>
          (case increment (pls_by_action summary) (action_value (pv_action v)) of
             Inl e \<Rightarrow> Inl e
           | Inr act \<Rightarrow>
               policy_summary_loop vs
                 (summary\<lparr>pls_by_category := count_up (pls_by_category summary) (pv_category v),
                           pls_by_severity := sev,
                           pls_by_action := act,
                           pls_messages :=
                             (if pv_message v \<in> set (pls_messages summary) then pls_messages summary
                              else pls_messages summary @ [pv_message v])\<rparr>)))"

definition get_policy_summary :: "PolicyViolation list \<Rightarrow> error + policy_summary" where
  "get_policy_summary violations =
     policy_summary_loop violations
       \<lparr>pls_total_violations = length violations,
        pls_should_block = should_block violations,
        pls_by_category = [],
        pls_by_severity = [(''critical'', 0), (''high'', 0), (''medium'', 0), (''low'', 0)],
        pls_by_action = [(''allow'', 0), (''warn'', 0), (''block'', 0), (''redact'', 0)],
        pls_messages = []\<rparr>"

section \<open>database.py\<close>

text \<open>What \<open>_scan_prompt\<close> writes for a finding and for a violation.\<close>

record pii_info =
  pi_type :: string
  pi_name :: string
  pi_severity :: string

record violation_info =
  vi_policy :: string
  vi_category :: string
  vi_action :: string
  vi_message :: string

text \<open>An audit entry is a dictionary. A field is \<open>None\<close> when the key is absent and
  \<open>Some None\<close> when the key is there with the value \<open>None\<close>.\<close>

record audit_entry =
  e_timestamp :: "string option option"
  e_event_type :: "string option option"
  e_original_text :: "string option option"
  e_redacted_text :: "string option option"
  e_pii_detected :: "pii_info list option"
  e_policy_violations :: "violation_info list option"
  e_action_taken :: "string option option"
  e_user_id :: "string option option"
  e_session_id :: "string option option"
  e_metadata :: "(string \<times> string) list option"

definition dict_get :: "'a option option \<Rightarrow> 'a option" where
  "dict_get field = (case field of None \<Rightarrow> None | Some v \<Rightarrow> v)"

definition dict_get_default :: "'a option \<Rightarrow> 'a \<Rightarrow> 'a" where
  "dict_get_default field d = (case field of None \<Rightarrow> d | Some v \<Rightarrow> v)"

text \<open>A row of \<open>audit_log\<close>, column by column; the three JSON columns are kept as the
  values they serialise.\<close>

record audit_row =
  row_id :: nat
  row_timestamp :: string
  row_event_type :: string
  row_original_text :: "string option"
  row_redacted_text :: "string option"
  row_pii_detected :: "pii_info list"
  row_policy_violations :: "violation_info list"
  row_action_taken :: "string option"
  row_user_id :: "string option"
  row_session_id :: "string option"
  row_metadata :: "(string \<times> string) list"
  row_hash :: string
  row_prev_hash :: "string option"
  row_created_at :: string

record stats_row =
  st_total_scans :: nat
  st_pii_detections :: nat
  st_policy_violations :: nat
  st_blocked_prompts :: nat
  st_unique_users :: nat

text \<open>The committed content of the database file: the rows of \<open>audit_log\<close>, the
  \<open>AUTOINCREMENT\<close> counter of that table, and \<open>statistics\<close>, which has one row per
  date (\<open>UNIQUE(date)\<close>).\<close>

record database =
  audit_log :: "audit_row list"
  audit_seq :: nat
  statistics :: "string \<rightharpoonup> stats_row"

definition calculate_hash :: "lib \<Rightarrow> audit_entry \<Rightarrow> string \<Rightarrow> string" where
  "calculate_hash L data prev_hash =
     sha256_json L
       \<lparr>hd_timestamp = dict_get (e_timestamp data),
        hd_event_type = dict_get (e_event_type data),
        hd_original_text = dict_get (e_original_text data),
        hd_action_taken = dict_get (e_action_taken data),
        hd_prev_hash = prev_hash\<rparr>"

text \<open>\<open>_update_statistics\<close> opens a connection of its own, reads the row of today,
  writes it and commits. \<open>other_writer\<close> says whether another connection has an
  uncommitted write at that moment.\<close>

definition update_statistics :: "lib \<Rightarrow> bool \<Rightarrow> audit_entry \<Rightarrow> database \<Rightarrow> error + database" where
  "update_statistics L other_writer entry db =
     (let stats = statistics db (today L);
          pii = length (dict_get_default (e_pii_detected entry) []);
          violations = length (dict_get_default (e_policy_violations entry) []);
          blocked = (if dict_get (e_action_taken entry) = Some ''blocked'' then 1 else 0)
      in if other_writer \<and> second_writer_refused L then Inl OperationalError
         else Inr (db\<lparr>statistics := (statistics db)(today L \<mapsto>
                (case stats of
                   Some s \<Rightarrow> s\<lparr>st_total_scans := st_total_scans s + 1,
                               st_pii_detections := st_pii_detections s + pii,
                               st_policy_violations := st_policy_violations s + violations,
                               st_blocked_prompts := st_blocked_prompts s + blocked\<rparr>
                 | None \<Rightarrow> \<lparr>st_total_scans = 1, st_pii_detections = pii,
                             st_policy_violations = violations, st_blocked_prompts = blocked,
                             st_unique_users = 0\<rparr>))\<rparr>))"

text \<open>\<open>ORDER BY id\<close>, and the previous hash read by
  \<open>SELECT hash FROM audit_log ORDER BY id DESC LIMIT 1\<close>.\<close>

definition order_by_id :: "audit_row list \<Rightarrow> audit_row list" where
  "order_by_id rows = sort_key row_id rows"

definition last_hash :: "database \<Rightarrow> string" where
  "last_hash db = (case rev (order_by_id (audit_log db)) of [] \<Rightarrow> ''genesis'' | r # _ \<Rightarrow> row_hash r)"

definition next_id :: "database \<Rightarrow> nat" where
  "next_id db = fold max (map row_id (audit_log db)) (audit_seq db) + 1"

text \<open>The row of the \<open>INSERT\<close>; \<open>timestamp\<close> and \<open>event_type\<close> are \<open>NOT NULL\<close>, so
  a \<open>None\<close> there raises \<open>IntegrityError\<close>.\<close>

definition insert_row :: "lib \<Rightarrow> audit_entry \<Rightarrow> database \<Rightarrow> error + audit_row" where
  "insert_row L entry db =
     (let prev_hash = last_hash db;
          entry_hash = calculate_hash L entry prev_hash
      in case (dict_get_default (e_timestamp entry) (Some (now_isoformat L)),
               dict_get_default (e_event_type entry) (Some ''scan'')) of
           (Some ts, Some ev) \<Rightarrow>
             Inr \<lparr>row_id = next_id db, row_timestamp = ts, row_event_type = ev,
                  row_original_text = dict_get (e_original_text entry),
                  row_redacted_text = dict_get (e_redacted_text entry),
                  row_pii_detected = dict_get_default (e_pii_detected entry) [],
                  row_policy_violations = dict_get_default (e_policy_violations entry) [],
                  row_action_taken = dict_get_default (e_action_taken entry) (Some ''allowed''),
                  row_user_id = dict_get (e_user_id entry),
                  row_session_id = dict_get (e_session_id entry),
                  row_metadata = dict_get_default (e_metadata entry) [],
                  row_hash = entry_hash, row_prev_hash = Some prev_hash,
                  row_created_at = current_timestamp L\<rparr>
         | _ \<Rightarrow> Inl IntegrityError)"

text \<open>\<open>add_audit_entry\<close>, with the committed states it produces, in order. The
  \<open>INSERT\<close> is executed on the connection of \<open>add_audit_entry\<close> and stays uncommitted
  while \<open>_update_statistics\<close> runs on its own connection and commits; only then does
  \<open>add_audit_entry\<close> commit. When a statement raises, nothing of the open
  transaction is committed.\<close>

definition add_audit_entry_commits ::
  "lib \<Rightarrow> audit_entry \<Rightarrow> database \<Rightarrow> (error + string) \<times> database list" where
  "add_audit_entry_commits L entry db =
     (case insert_row L entry db of
        Inl e \<Rightarrow> (Inl e, [])
      | Inr row \<Rightarrow>
          (case update_statistics L True entry db of
             Inl e \<Rightarrow> (Inl e, [])
           | Inr db1 \<Rightarrow>
               (Inr (row_hash row),
                [db1, db1\<lparr>audit_log := audit_log db1 @ [row], audit_seq := row_id row\<rparr>])))"

definition add_audit_entry :: "lib \<Rightarrow> audit_entry \<Rightarrow> database \<Rightarrow> (error + string) \<times> database" where
  "add_audit_entry L entry db =
     (let (result, commits) = add_audit_entry_commits L entry db
      in (result, last (db # commits)))"

record invalid_entry =
  ie_id :: nat
  ie_expected_hash :: string
  ie_actual_hash :: string

record verify_result =
  vr_valid :: bool
  vr_entries_checked :: nat
  vr_invalid_entries :: "invalid_entry list"
  vr_message :: string

text \<open>The loop of \<open>verify_hash_chain\<close> over the rows, with \<open>valid\<close>,
  \<open>invalid_entries\<close> and \<open>prev_hash\<close> as its state; \<open>row_entry_data\<close> is the
  dictionary \<open>entry_data\<close> the loop builds from the columns 1, 2, 3 and 7 of a row.\<close>

definition row_entry_data :: "audit_row \<Rightarrow> audit_entry" where
  "row_entry_data row =
     \<lparr>e_timestamp = Some (Some (row_timestamp row)),
      e_event_type = Some (Some (row_event_type row)),
      e_original_text = Some (row_original_text row),
      e_redacted_text = None, e_pii_detected = None, e_policy_violations = None,
      e_action_taken = Some (row_action_taken row),
      e_user_id = None, e_session_id = None, e_metadata = None\<rparr>"

fun verify_loop ::
  "lib \<Rightarrow> audit_row list \<Rightarrow> bool \<times> invalid_entry list \<times> string \<Rightarrow> bool \<times> invalid_entry list \<times> string" where
  "verify_loop L [] state = state"
| "verify_loop L (row # rows) (valid, invalid_entries, prev_hash) =
     (let entry_data = row_entry_data row;
          expected_hash = calculate_hash L entry_data prev_hash;
          actual_hash = row_hash row
      in verify_loop L rows
           (if expected_hash \<noteq> actual_hash
            then (False,
                  invalid_entries @ [\<lparr>ie_id = row_id row, ie_expected_hash = expected_hash,
                                      ie_actual_hash = actual_hash\<rparr>],
                  actual_hash)
            else (valid, invalid_entries, actual_hash)))"

text \<open>\<open>limit\<close> is \<open>None\<close> or an integer; \<open>0\<close> is false, so no \<open>LIMIT\<close> is added, and
  a negative \<open>LIMIT\<close> means no limit to the storage engine.\<close>

definition verify_hash_chain :: "lib \<Rightarrow> int option \<Rightarrow> database \<Rightarrow> verify_result" where
  "verify_hash_chain L limit db =
     (let ordered = order_by_id (audit_log db);
          rows = (case limit of
                    None \<Rightarrow> ordered
                  | Some n \<Rightarrow> if n \<le> 0 then ordered else take (nat n) ordered);
          (valid, invalid_entries, prev_hash) = verify_loop L rows (True, [], ''genesis'')
      in \<lparr>vr_valid = valid, vr_entries_checked = length rows,
          vr_invalid_entries = invalid_entries,
          vr_message = (if valid then ''Hash chain is intact''
                        else ''Found '' @ str_of_nat (length invalid_entries) @ '' invalid entries'')\<rparr>)"

section \<open>server.py\<close>

text \<open>The configuration is a dictionary from keys to values; \<open>truthy\<close> is the truth
  value Python gives a value in a condition.\<close>

fun truthy :: "pyval \<Rightarrow> bool" where
  "truthy PyNone = False"
| "truthy (PyBool b) = b"
| "truthy (PyInt n) = (n \<noteq> 0)"
| "truthy (PyStr s) = (s \<noteq> [])"
| "truthy (PyDict d) = (d \<noteq> [])"

definition config_get :: "(string \<rightharpoonup> pyval) \<Rightarrow> string \<Rightarrow> pyval \<Rightarrow> pyval" where
  "config_get cfg key d = (case cfg key of None \<Rightarrow> d | Some v \<Rightarrow> v)"

text \<open>\<open>len(prompt) > v\<close>: an integer or a boolean compares, anything else raises
  \<open>TypeError\<close>.\<close>

fun len_exceeds :: "nat \<Rightarrow> pyval \<Rightarrow> error + bool" where
  "len_exceeds n (PyInt m) = Inr (int n > m)"
| "len_exceeds n (PyBool b) = Inr (int n > (if b then 1 else 0))"
| "len_exceeds n v = Inl TypeError"

record server =
  config :: "string \<rightharpoonup> pyval"
  db :: database
  session_id :: string

definition default_config :: "string \<rightharpoonup> pyval" where
  "default_config = map_of [
     (''pii_detection_enabled'', PyBool True),
     (''policy_enforcement_enabled'', PyBool True),
     (''audit_logging_enabled'', PyBool True),
     (''auto_redact'', PyBool True),
     (''extended_patterns'', PyBool False),
     (''extended_policies'', PyBool False),
     (''redaction_style'', PyStr ''[REDACTED]''),
     (''max_prompt_length'', PyInt 10000),
     (''rate_limit'', PyDict [(''enabled'', PyBool False), (''max_per_minute'', PyInt 60)])]"

record scan_args =
  arg_prompt :: "string option"
  arg_auto_redact :: "pyval option"
  arg_context :: "(string \<times> string) list option"

record scan_result =
  r_original_prompt :: string
  r_redacted_prompt :: "string option"
  r_pii_detected :: "pii_info list"
  r_policy_violations :: "violation_info list"
  r_action :: string
  r_safe_to_send :: bool
  r_summary_pii :: pii_summary
  r_summary_policy :: policy_summary
  r_audit_hash :: "string option"

text \<open>What \<open>_scan_prompt\<close> returns: the dictionary with \<open>error\<close> and \<open>max_length\<close>,
  or the result.\<close>

datatype scan_response = ScanError string pyval | ScanResult scan_result

text \<open>Lines 356 to 361: the action.\<close>

definition determine_action :: "PolicyViolation list \<Rightarrow> string" where
  "determine_action policy_violations =
     (if should_block policy_violations then ''blocked''
      else if policy_violations \<noteq> [] then ''warned''
      else ''allowed'')"

text \<open>Lines 331 to 345: the findings and the violations of a prompt.\<close>

definition scan_findings :: "lib \<Rightarrow> (string \<rightharpoonup> pyval) \<Rightarrow> string \<Rightarrow> error + PIIMatch list" where
  "scan_findings L cfg prompt =
     (if truthy (config_get cfg ''pii_detection_enabled'' (PyBool True))
      then detect_pii L prompt (truthy (config_get cfg ''extended_patterns'' (PyBool False)))
      else Inr [])"

definition scan_violations :: "lib \<Rightarrow> (string \<rightharpoonup> pyval) \<Rightarrow> string \<Rightarrow> PolicyViolation list" where
  "scan_violations L cfg prompt =
     (if truthy (config_get cfg ''policy_enforcement_enabled'' (PyBool True))
      then check_policies L prompt (truthy (config_get cfg ''extended_policies'' (PyBool False))) None
      else [])"

text \<open>Lines 347 to 408: redaction, the result and the audit entry, from the findings
  and the violations.\<close>

definition scan_finish ::
  "lib \<Rightarrow> server \<Rightarrow> string \<Rightarrow> pyval \<Rightarrow> (string \<times> string) list \<Rightarrow> PIIMatch list \<Rightarrow>
   PolicyViolation list \<Rightarrow> (error + scan_response) \<times> server" where
  "scan_finish L srv prompt auto_redact context pii_matches policy_violations =
     (case (if truthy auto_redact \<and> pii_matches \<noteq> []
            then redact_pii prompt pii_matches
                   (config_get (config srv) ''redaction_style'' (PyStr ''[REDACTED]''))
            else Inr prompt) of
        Inl e \<Rightarrow> (Inl e, srv)
      | Inr redacted_prompt \<Rightarrow>
          (let action = determine_action policy_violations;
               pii_detected = map (\<lambda>m. \<lparr>pi_type = pii_type m, pi_name = pii_name m,
                                          pi_severity = pii_severity m\<rparr>) pii_matches;
               violations = map (\<lambda>v. \<lparr>vi_policy = pv_policy_name v, vi_category = pv_category v,
                                        vi_action = action_value (pv_action v),
                                        vi_message = pv_message v\<rparr>) policy_violations
           in case get_pii_summary pii_matches of
                Inl e \<Rightarrow> (Inl e, srv)
              | Inr summary_pii \<Rightarrow>
                  (case get_policy_summary policy_violations of
                     Inl e \<Rightarrow> (Inl e, srv)
                   | Inr summary_policy \<Rightarrow>
                       (let result =
                              \<lparr>r_original_prompt = prompt,
                               r_redacted_prompt =
                                 (if action \<noteq> ''blocked'' then Some redacted_prompt else None),
                               r_pii_detected = pii_detected,
                               r_policy_violations = violations,
                               r_action = action,
                               r_safe_to_send = (action \<noteq> ''blocked''),
                               r_summary_pii = summary_pii,
                               r_summary_policy = summary_policy,
                               r_audit_hash = None\<rparr>
                        in if truthy (config_get (config srv) ''audit_logging_enabled'' (PyBool True))
                           then (let audit_entry =
                                       \<lparr>e_timestamp = Some (Some (now_isoformat L)),
                                        e_event_type = Some (Some ''scan''),
                                        e_original_text = Some (Some prompt),
                                        e_redacted_text = Some (Some redacted_prompt),
                                        e_pii_detected = Some pii_detected,
                                        e_policy_violations = Some violations,
                                        e_action_taken = Some (Some action),
                                        e_user_id = Some (map_of context ''user_id''),
                                        e_session_id = Some (Some (session_id srv)),
                                        e_metadata = Some context\<rparr>
                                 in case add_audit_entry L audit_entry (db srv) of
                                      (Inl e, db') \<Rightarrow> (Inl e, srv\<lparr>db := db'\<rparr>)
                                    | (Inr entry_hash, db') \<Rightarrow>
                                        (Inr (ScanResult (result\<lparr>r_audit_hash := Some entry_hash\<rparr>)),
                                         srv\<lparr>db := db'\<rparr>))
                           else (Inr (ScanResult result), srv)))))"

definition scan_prompt :: "lib \<Rightarrow> server \<Rightarrow> scan_args \<Rightarrow> (error + scan_response) \<times> server" where
  "scan_prompt L srv args =
     (let prompt = (case arg_prompt args of None \<Rightarrow> [] | Some p \<Rightarrow> p);
          auto_redact = (case arg_auto_redact args of
                           None \<Rightarrow> config_get (config srv) ''auto_redact'' (PyBool True)
                         | Some v \<Rightarrow> v);
          context = (case arg_context args of None \<Rightarrow> [] | Some c \<Rightarrow> c)
      in case len_exceeds (length prompt) (config_get (config srv) ''max_prompt_length'' (PyInt 10000)) of
           Inl e \<Rightarrow> (Inl e, srv)
         | Inr True \<Rightarrow>
             (Inr (ScanError ''Prompt exceeds maximum length''
                     (case config srv ''max_prompt_length'' of None \<Rightarrow> PyNone | Some v \<Rightarrow> v)),
              srv)
         | Inr False \<Rightarrow>
             (case scan_findings L (config srv) prompt of
                Inl e \<Rightarrow> (Inl e, srv)
              | Inr pii_matches \<Rightarrow>
                  scan_finish L srv prompt auto_redact context pii_matches
                    (scan_violations L (config srv) prompt)))"

text \<open>\<open>_configure\<close>: the loop over \<open>args.items()\<close>, and the returned dictionary.\<close>

definition configure_step :: "string \<times> pyval \<Rightarrow> (string \<rightharpoonup> pyval) \<Rightarrow> (string \<rightharpoonup> pyval)" where
  "configure_step kv cfg = (if fst kv \<in> dom cfg then cfg(fst kv \<mapsto> snd kv) else cfg)"

record configure_result =
  cr_status :: string
  cr_configuration :: "string \<rightharpoonup> pyval"

definition configure :: "server \<Rightarrow> (string \<times> pyval) list \<Rightarrow> configure_result \<times> server" where
  "configure srv args =
     (let cfg = fold configure_step args (config srv)
      in (\<lparr>cr_status = ''updated'', cr_configuration = cfg\<rparr>, srv\<lparr>config := cfg\<rparr>))"

section \<open>The specification's words\<close>

text \<open>
  The checksum validator as the specification describes it, to compare the code with:
  over the digits from the rightmost end, every second digit is doubled, 9 is taken
  from a doubled value above 9, and everything is summed; the candidate is valid when
  it has digits only, once the hyphens and the white space are taken out, and the sum
  of the values of its digits is divisible by 10.
\<close>

fun luhn_sum :: "nat list \<Rightarrow> nat" where
  "luhn_sum [] = 0"
| "luhn_sum [d] = d"
| "luhn_sum (d # e # ds) = d + (if 2 * e > 9 then 2 * e - 9 else 2 * e) + luhn_sum ds"

definition digit_value :: "lib \<Rightarrow> nat \<Rightarrow> nat" where
  "digit_value L c = (case decimal_value L c of Some v \<Rightarrow> v | None \<Rightarrow> 0)"


text \<open>The decimal digits \<open>0\<close> to \<open>9\<close> among the characters of a text.\<close>

definition decimal_digit :: "char \<Rightarrow> bool" where
  "decimal_digit c = (of_char c \<in> {48 ..< 58 :: nat})"

text \<open>
  Verification as the specification describes it: each expected hash is recomputed
  from the fields of the record and the stored hash of the record before it (the
  genesis sentinel for the first), and every record whose stored hash differs is
  reported.
\<close>

fun mismatches :: "lib \<Rightarrow> string \<Rightarrow> audit_row list \<Rightarrow> invalid_entry list" where
  "mismatches L prev [] = []"
| "mismatches L prev (row # rows) =
     (if calculate_hash L (row_entry_data row) prev \<noteq> row_hash row
      then [\<lparr>ie_id = row_id row,
              ie_expected_hash = calculate_hash L (row_entry_data row) prev,
              ie_actual_hash = row_hash row\<rparr>]
      else [])
     @ mismatches L (row_hash row) rows"

text \<open>The ledger after the entries have been appended one after the other.\<close>

fun append_all :: "lib \<Rightarrow> audit_entry list \<Rightarrow> database \<Rightarrow> database" where
  "append_all L [] ledger = ledger"
| "append_all L (entry # entries) ledger =
     append_all L entries (snd (add_audit_entry L entry ledger))"

section \<open>An instance of the library for the examples\<close>

text \<open>
  The examples below run the model on concrete inputs, so they need the library at
  those inputs. \<open>example_lib\<close> gives the regular-expression engine its answers on the
  texts of the examples (the engine finds nothing in any other text used there), a
  stand-in for the hash that writes its five inputs out one after the other, a fixed
  clock, SQLite's refusal of a second writer, and of the Unicode tables beyond 255 the
  white space and, of the digits, the Arabic-Indic digits (with the values \<open>int\<close>
  gives them), the superscript four and the circled one (on which \<open>int\<close> raises).
\<close>

definition example_finditer :: "string \<Rightarrow> string \<Rightarrow> re_match list" where
  "example_finditer p t =
     (if t = ''Email: john@example.com, SSN: 123-45-6789'' \<and> p = rx ''~b~d{3}-~d{2}-~d{4}~b''
      then [\<lparr>m_start = 30, m_end = 41, m_group = ''123-45-6789'', m_groups = []\<rparr>]
      else if t = ''Email: john@example.com, SSN: 123-45-6789''
              \<and> p = rx ''~b[a-zA-Z0-9._%+-]+@[a-zA-Z0-9.-]+~.[a-zA-Z]{2,}~b''
      then [\<lparr>m_start = 7, m_end = 23, m_group = ''john@example.com'', m_groups = []\<rparr>]
      else [])"

definition example_search :: "string \<Rightarrow> string \<Rightarrow> bool" where
  "example_search p t =
     (t = ''What medication should I take?''
      \<and> (p = rx ''~b(?:what|which) (?:medication|medicine|drug)s?~b''
           \<or> p = rx ''~b(?:should i|do i need to) (?:take|see a doctor)~b''))"

definition example_hash :: "hash_data \<Rightarrow> string" where
  "example_hash d =
     (let field = (\<lambda>v. case v of None \<Rightarrow> ''null'' | Some s \<Rightarrow> ''<'' @ s @ ''>'')
      in field (hd_action_taken d) @ '','' @ field (hd_event_type d) @ '','' @
         field (hd_original_text d) @ '','' @ hd_prev_hash d @ '','' @ field (hd_timestamp d))"

definition example_lib :: lib where
  "example_lib =
     \<lparr>re_finditer = example_finditer, re_search = example_search,
      sha256_json = example_hash,
      now_isoformat = ''2024-01-01T12:00:00'', today = ''2024-01-01'',
      current_timestamp = ''2024-01-01 12:00:00'',
      wide_space = (\<lambda>c. c = 0x1680 \<or> c \<in> {0x2000 ..< 0x200B} \<or> c = 0x2028 \<or> c = 0x2029
                          \<or> c = 0x202F \<or> c = 0x205F \<or> c = 0x3000),
      wide_isdigit = (\<lambda>c. c \<in> {0x660 ..< 0x66A} \<or> c = 0x2074 \<or> c = 0x2460),
      wide_decimal = (\<lambda>c. if c \<in> {0x660 ..< 0x66A} then Some (c - 0x660) else None),
      second_writer_refused = True\<rparr>"

definition empty_database :: database where
  "empty_database = \<lparr>audit_log = [], audit_seq = 0, statistics = Map.empty\<rparr>"

text \<open>An entry with every key (the one \<open>scripts/simple_test_script.py\<close> appends), the
  row its \<open>INSERT\<close> writes into an empty table, and an entry that has the key
  \<open>original_text\<close> only.\<close>

definition example_entry :: audit_entry where
  "example_entry =
     \<lparr>e_timestamp = Some (Some ''2024-01-01T12:00:00''), e_event_type = Some (Some ''test''),
      e_original_text = Some (Some ''Test entry''), e_redacted_text = Some (Some ''Test entry''),
      e_pii_detected = Some [], e_policy_violations = Some [],
      e_action_taken = Some (Some ''allowed''),
      e_user_id = None, e_session_id = None, e_metadata = None\<rparr>"

definition example_row :: audit_row where
  "example_row =
     \<lparr>row_id = 1, row_timestamp = ''2024-01-01T12:00:00'', row_event_type = ''test'',
      row_original_text = Some ''Test entry'', row_redacted_text = Some ''Test entry'',
      row_pii_detected = [], row_policy_violations = [],
      row_action_taken = Some ''allowed'', row_user_id = None, row_session_id = None,
      row_metadata = [],
      row_hash = ''<allowed>,<test>,<Test entry>,genesis,<2024-01-01T12:00:00>'',
      row_prev_hash = Some ''genesis'', row_created_at = ''2024-01-01 12:00:00''\<rparr>"

definition partial_entry :: audit_entry where
  "partial_entry =
     \<lparr>e_timestamp = None, e_event_type = None,
      e_original_text = Some (Some ''Test entry''), e_redacted_text = None,
      e_pii_detected = None, e_policy_violations = None, e_action_taken = None,
      e_user_id = None, e_session_id = None, e_metadata = None\<rparr>"

section \<open>Evaluating the examples\<close>

lemmas example_eval =
  scan_prompt_def scan_findings_def scan_violations_def scan_finish_def detect_pii_def
  PII_PATTERNS_def EXTENDED_PATTERNS_def check_policies_def check_policy_def POLICY_RULES_def
  EXTENDED_POLICIES_def lower_def lower_char_def example_lib_def example_finditer_def
  example_search_def rx_def config_get_def default_config_def determine_action_def
  should_block_def get_pii_summary_def get_policy_summary_def increment_def count_up_def
  List.map_filter_def dict_update_def Let_def redact_pii_def

text \<open>The prompt of the blocking scenario, scanned with audit logging switched off:
  the keyword \<open>medication\<close> triggers the rule \<open>medical_advice\<close>, whose action is
  \<open>block\<close>.\<close>

lemma scan_medication_example:
  "case fst (scan_prompt example_lib
       \<lparr>config = default_config(''audit_logging_enabled'' \<mapsto> PyBool False),
        db = empty_database, session_id = ''session_1''\<rparr>
       \<lparr>arg_prompt = Some ''What medication should I take?'', arg_auto_redact = None,
        arg_context = None\<rparr>) of
     Inr (ScanResult r) \<Rightarrow>
       r_action r = ''blocked'' \<and> r_original_prompt r = ''What medication should I take?''
   | _ \<Rightarrow> False"
  by (simp add: example_eval)

section \<open>The decision\<close>

lemma determine_action_cases:
  "determine_action vs =
     (if (\<exists>v\<in>set vs. pv_action v = BLOCK) then ''blocked''
      else if vs \<noteq> [] then ''warned'' else ''allowed'')"
  by (simp add: determine_action_def should_block_def list_ex_iff)

lemma scan_finish_result:
  "scan_finish L srv prompt ar ctx pm vs = (Inr (ScanResult r), srv') \<Longrightarrow>
   r_action r = determine_action vs \<and> r_original_prompt r = prompt
   \<and> r_safe_to_send r = (determine_action vs \<noteq> ''blocked'')
   \<and> (determine_action vs = ''blocked'' \<longrightarrow> r_redacted_prompt r = None)"
  by (auto simp: scan_finish_def Let_def split: sum.splits if_splits prod.splits)

lemma scan_prompt_result:
  "scan_prompt L srv args = (Inr (ScanResult r), srv') \<Longrightarrow>
   \<exists>ar ctx pm. scan_finish L srv (case arg_prompt args of None \<Rightarrow> [] | Some p \<Rightarrow> p) ar ctx pm
      (scan_violations L (config srv) (case arg_prompt args of None \<Rightarrow> [] | Some p \<Rightarrow> p))
     = (Inr (ScanResult r), srv')"
  by (auto simp: scan_prompt_def Let_def split: sum.splits if_splits bool.splits)

text \<open>
  C4. The action is \<open>blocked\<close> when some violation has the action \<open>block\<close>, otherwise
  \<open>warned\<close> when there is any violation at all, otherwise \<open>allowed\<close>. The findings do
  not enter: whatever findings the rest of the scan is given, a result it returns
  carries the action of the violations, and so does every result of \<open>_scan_prompt\<close>.
\<close>

theorem action_resolution:
  "determine_action vs =
     (if (\<exists>v\<in>set vs. pv_action v = BLOCK) then ''blocked''
      else if vs \<noteq> [] then ''warned'' else ''allowed'')
   \<and> (\<forall>pm r srv'. scan_finish L srv prompt ar ctx pm vs = (Inr (ScanResult r), srv')
          \<longrightarrow> r_action r = determine_action vs)
   \<and> (\<forall>r srv'. scan_prompt L srv args = (Inr (ScanResult r), srv')
          \<longrightarrow> r_action r =
              determine_action
                (scan_violations L (config srv) (case arg_prompt args of None \<Rightarrow> [] | Some p \<Rightarrow> p)))"
proof (intro conjI allI impI)
  show "determine_action vs =
     (if (\<exists>v\<in>set vs. pv_action v = BLOCK) then ''blocked''
      else if vs \<noteq> [] then ''warned'' else ''allowed'')"
    by (rule determine_action_cases)
next
  fix pm r srv'
  assume "scan_finish L srv prompt ar ctx pm vs = (Inr (ScanResult r), srv')"
  then show "r_action r = determine_action vs"
    by (simp add: scan_finish_result)
next
  fix r srv'
  assume "scan_prompt L srv args = (Inr (ScanResult r), srv')"
  then show "r_action r =
      determine_action
        (scan_violations L (config srv) (case arg_prompt args of None \<Rightarrow> [] | Some p \<Rightarrow> p))"
    using scan_prompt_result scan_finish_result by blast
qed

theorem action_resolution_witness:
  "determine_action
     [\<lparr>pv_policy_name = ''financial_advice'', pv_category = ''financial'',
       pv_matched_keyword = ''invest in'', pv_action = WARN,
       pv_message = ''Financial advice detected. Please consult a licensed financial advisor.'',
       pv_severity = ''medium'', pv_confidence = 1\<rparr>,
      \<lparr>pv_policy_name = ''medical_advice'', pv_category = ''medical'',
       pv_matched_keyword = ''medication'', pv_action = BLOCK,
       pv_message = ''Medical advice detected. Please consult a licensed healthcare professional.'',
       pv_severity = ''high'', pv_confidence = 1\<rparr>] = ''blocked''
   \<and> determine_action
     [\<lparr>pv_policy_name = ''financial_advice'', pv_category = ''financial'',
       pv_matched_keyword = ''invest in'', pv_action = WARN,
       pv_message = ''Financial advice detected. Please consult a licensed financial advisor.'',
       pv_severity = ''medium'', pv_confidence = 1\<rparr>] = ''warned''
   \<and> determine_action [] = ''allowed''
   \<and> (case fst (scan_prompt example_lib
          \<lparr>config = default_config(''audit_logging_enabled'' \<mapsto> PyBool False),
           db = empty_database, session_id = ''session_1''\<rparr>
          \<lparr>arg_prompt = Some ''What medication should I take?'', arg_auto_redact = None,
           arg_context = None\<rparr>) of
        Inr (ScanResult r) \<Rightarrow>
          r_action r = ''blocked''
          \<and> determine_action
               (scan_violations example_lib
                  (default_config(''audit_logging_enabled'' \<mapsto> PyBool False))
                  ''What medication should I take?'') = ''blocked''
      | _ \<Rightarrow> False)"
proof -
  let ?srv = "\<lparr>config = default_config(''audit_logging_enabled'' \<mapsto> PyBool False),
           db = empty_database, session_id = ''session_1''\<rparr>"
  let ?args = "\<lparr>arg_prompt = Some ''What medication should I take?'', arg_auto_redact = None,
           arg_context = None\<rparr>"
  let ?warn = "\<lparr>pv_policy_name = ''financial_advice'', pv_category = ''financial'',
       pv_matched_keyword = ''invest in'', pv_action = WARN,
       pv_message = ''Financial advice detected. Please consult a licensed financial advisor.'',
       pv_severity = ''medium'', pv_confidence = 1\<rparr>"
  let ?block = "\<lparr>pv_policy_name = ''medical_advice'', pv_category = ''medical'',
       pv_matched_keyword = ''medication'', pv_action = BLOCK,
       pv_message = ''Medical advice detected. Please consult a licensed healthcare professional.'',
       pv_severity = ''high'', pv_confidence = 1\<rparr>"
  have 1: "determine_action [?warn, ?block] = ''blocked''"
    using action_resolution[of "[?warn, ?block]"] by simp
  have 2: "determine_action [?warn] = ''warned''"
    using action_resolution[of "[?warn]"] by simp
  have 3: "determine_action [] = ''allowed''"
    using action_resolution[of "[]"] by simp
  from scan_medication_example obtain r where
    r: "fst (scan_prompt example_lib ?srv ?args) = Inr (ScanResult r)"
    and b: "r_action r = ''blocked''"
    by (auto split: sum.splits scan_response.splits)
  from r have "scan_prompt example_lib ?srv ?args
      = (Inr (ScanResult r), snd (scan_prompt example_lib ?srv ?args))"
    by (metis prod.collapse)
  with action_resolution[of _ example_lib ?srv _ _ _ ?args]
  have "r_action r = determine_action
      (scan_violations example_lib (config ?srv)
         (case arg_prompt ?args of None \<Rightarrow> [] | Some p \<Rightarrow> p))"
    by blast
  with b have 4: "determine_action
      (scan_violations example_lib
         (default_config(''audit_logging_enabled'' \<mapsto> PyBool False))
         ''What medication should I take?'') = ''blocked''"
    by simp
  from 1 2 3 4 r b show ?thesis by simp
qed

text \<open>
  C1, as amended. When \<open>_scan_prompt\<close> returns a result whose action is \<open>blocked\<close>, the
  result has no redacted text (\<open>redacted_prompt\<close> is \<open>None\<close>) and is not safe to send;
  its field \<open>original_prompt\<close> is the submitted text.
\<close>

theorem blocked_result_has_no_redacted_text:
  assumes "scan_prompt L srv args = (Inr (ScanResult r), srv')"
      and "r_action r = ''blocked''"
  shows "r_redacted_prompt r = None \<and> \<not> r_safe_to_send r
         \<and> r_original_prompt r = (case arg_prompt args of None \<Rightarrow> [] | Some p \<Rightarrow> p)"
proof -
  from assms(1) obtain ar ctx pm where
    "scan_finish L srv (case arg_prompt args of None \<Rightarrow> [] | Some p \<Rightarrow> p) ar ctx pm
       (scan_violations L (config srv) (case arg_prompt args of None \<Rightarrow> [] | Some p \<Rightarrow> p))
     = (Inr (ScanResult r), srv')"
    using scan_prompt_result by blast
  from scan_finish_result[OF this] assms(2) show ?thesis by simp
qed

theorem blocked_result_has_no_redacted_text_witness:
  "case fst (scan_prompt example_lib
       \<lparr>config = default_config(''audit_logging_enabled'' \<mapsto> PyBool False),
        db = empty_database, session_id = ''session_1''\<rparr>
       \<lparr>arg_prompt = Some ''What medication should I take?'', arg_auto_redact = None,
        arg_context = None\<rparr>) of
     Inr (ScanResult r) \<Rightarrow>
       r_action r = ''blocked'' \<and> r_redacted_prompt r = None \<and> \<not> r_safe_to_send r
   | _ \<Rightarrow> False"
proof -
  let ?s = "scan_prompt example_lib
       \<lparr>config = default_config(''audit_logging_enabled'' \<mapsto> PyBool False),
        db = empty_database, session_id = ''session_1''\<rparr>
       \<lparr>arg_prompt = Some ''What medication should I take?'', arg_auto_redact = None,
        arg_context = None\<rparr>"
  from scan_medication_example obtain r where
    r: "fst ?s = Inr (ScanResult r)" and b: "r_action r = ''blocked''"
    by (auto split: sum.splits scan_response.splits)
  from r have "?s = (Inr (ScanResult r), snd ?s)"
    by (metis prod.collapse)
  from blocked_result_has_no_redacted_text[OF this b] r b show ?thesis
    by simp
qed

text \<open>
  C1, as stated, fails: the result of a blocked scan carries the scanned text in
  \<open>original_prompt\<close>.
\<close>

theorem blocked_result_returns_original_text:
  "case fst (scan_prompt example_lib
       \<lparr>config = default_config(''audit_logging_enabled'' \<mapsto> PyBool False),
        db = empty_database, session_id = ''session_1''\<rparr>
       \<lparr>arg_prompt = Some ''What medication should I take?'', arg_auto_redact = None,
        arg_context = None\<rparr>) of
     Inr (ScanResult r) \<Rightarrow>
       r_action r = ''blocked'' \<and> r_original_prompt r = ''What medication should I take?''
   | _ \<Rightarrow> False"
  by (rule scan_medication_example)

section \<open>Oversized prompts\<close>

text \<open>
  C9. A scan whose prompt is longer than the configured maximum returns the error
  dictionary and leaves the server as it was: no row is added to the audit log and no
  statistics row changes.
\<close>

theorem oversized_prompt_rejected_without_effect:
  assumes "config_get (config srv) ''max_prompt_length'' (PyInt 10000) = PyInt m"
      and "m < int (length (case arg_prompt args of None \<Rightarrow> [] | Some p \<Rightarrow> p))"
  shows "scan_prompt L srv args =
           (Inr (ScanError ''Prompt exceeds maximum length''
                   (case config srv ''max_prompt_length'' of None \<Rightarrow> PyNone | Some v \<Rightarrow> v)),
            srv)
         \<and> db (snd (scan_prompt L srv args)) = db srv"
  using assms by (simp add: scan_prompt_def Let_def)

theorem oversized_prompt_rejected_without_effect_witness:
  "scan_prompt example_lib
     \<lparr>config = default_config, db = empty_database, session_id = ''session_1''\<rparr>
     \<lparr>arg_prompt = Some (replicate 10001 CHR ''a''), arg_auto_redact = None, arg_context = None\<rparr>
   = (Inr (ScanError ''Prompt exceeds maximum length'' (PyInt 10000)),
      \<lparr>config = default_config, db = empty_database, session_id = ''session_1''\<rparr>)"
  using oversized_prompt_rejected_without_effect
    [of "\<lparr>config = default_config, db = empty_database, session_id = ''session_1''\<rparr>" 10000
        "\<lparr>arg_prompt = Some (replicate 10001 CHR ''a''), arg_auto_redact = None, arg_context = None\<rparr>"
        example_lib]
  by (simp add: config_get_def default_config_def)

section \<open>Configuration\<close>

lemma configure_step_dom: "dom (configure_step kv cfg) = dom cfg"
  by (auto simp: configure_step_def)

lemma fold_configure_step_dom: "dom (fold configure_step args cfg) = dom cfg"
  by (induction args arbitrary: cfg) (simp_all add: configure_step_dom)

lemma fold_configure_step_value:
  "fold configure_step args cfg k =
     (if k \<in> dom cfg then (case map_of (rev args) k of Some v \<Rightarrow> Some v | None \<Rightarrow> cfg k) else None)"
proof (induction args arbitrary: cfg)
  case Nil
  then show ?case by (auto split: option.splits)
next
  case (Cons kv args)
  let ?c = "configure_step kv cfg"
  have step: "fold configure_step (kv # args) cfg k =
     (if k \<in> dom cfg then (case map_of (rev args) k of Some v \<Rightarrow> Some v | None \<Rightarrow> ?c k) else None)"
    using Cons[of ?c] by (simp add: configure_step_dom)
  have look: "map_of (rev (kv # args)) k =
     (case map_of (rev args) k of Some v \<Rightarrow> Some v | None \<Rightarrow> if k = fst kv then Some (snd kv) else None)"
    by (cases kv) (simp add: map_add_def split: option.splits)
  have val: "k \<in> dom cfg \<Longrightarrow> ?c k = (if k = fst kv then Some (snd kv) else cfg k)"
    by (auto simp: configure_step_def)
  show ?case
    unfolding step look using val by (auto split: option.splits simp: domIff)
qed

lemma fold_configure_step_filter:
  "dom c = D \<Longrightarrow>
   fold configure_step (filter (\<lambda>kv. fst kv \<in> D) args) c = fold configure_step args c"
proof (induction args arbitrary: c)
  case Nil
  show ?case by simp
next
  case (Cons kv args)
  have d: "dom (configure_step kv c) = D"
    using Cons.prems by (simp add: configure_step_dom)
  have skip: "fst kv \<notin> D \<Longrightarrow> configure_step kv c = c"
    using Cons.prems by (simp add: configure_step_def)
  show ?case
  proof (cases "fst kv \<in> D")
    case True
    then show ?thesis using Cons.IH[OF d] by simp
  next
    case False
    then show ?thesis using Cons.IH[OF Cons.prems] skip by simp
  qed
qed

text \<open>
  C10. \<open>_configure\<close> leaves the set of configuration keys as it was, reports the status
  \<open>updated\<close> with the configuration it has arrived at, and ignores every argument whose
  key the configuration does not have: dropping those arguments changes nothing. A key
  of the configuration takes the value the arguments give it and keeps its value when
  they give none.
\<close>

theorem configure_updates_present_keys_only:
  "dom (config (snd (configure srv args))) = dom (config srv)
   \<and> cr_status (fst (configure srv args)) = ''updated''
   \<and> cr_configuration (fst (configure srv args)) = config (snd (configure srv args))
   \<and> configure srv (filter (\<lambda>kv. fst kv \<in> dom (config srv)) args) = configure srv args
   \<and> (\<forall>k. config (snd (configure srv args)) k =
          (if k \<in> dom (config srv)
           then (case map_of (rev args) k of Some v \<Rightarrow> Some v | None \<Rightarrow> config srv k)
           else None))"
  by (simp add: configure_def Let_def fold_configure_step_dom fold_configure_step_value
      fold_configure_step_filter)

theorem configure_updates_present_keys_only_witness:
  "config (snd (configure
       \<lparr>config = default_config, db = empty_database, session_id = ''session_1''\<rparr>
       [(''auto_redact'', PyBool False), (''no_such_key'', PyInt 1)])) ''auto_redact''
     = Some (PyBool False)
   \<and> config (snd (configure
       \<lparr>config = default_config, db = empty_database, session_id = ''session_1''\<rparr>
       [(''auto_redact'', PyBool False), (''no_such_key'', PyInt 1)])) ''no_such_key'' = None
   \<and> config (snd (configure
       \<lparr>config = default_config, db = empty_database, session_id = ''session_1''\<rparr>
       [(''auto_redact'', PyBool False), (''no_such_key'', PyInt 1)])) ''extended_patterns''
     = Some (PyBool False)"
  using configure_updates_present_keys_only
    [of "\<lparr>config = default_config, db = empty_database, session_id = ''session_1''\<rparr>"
        "[(''auto_redact'', PyBool False), (''no_such_key'', PyInt 1)]"]
  by (simp add: default_config_def dom_def)

section \<open>Redaction\<close>

lemma replacement_xxx:
  "replacement (PyStr ''[REDACTED-XXX]'') m =
     Inr (''['' @ replicate (nat (pii_end m - pii_start m - 2)) CHR ''X'' @ '']'')"
  by (simp add: replacement_def)

text \<open>What the code does under the style \<open>[REDACTED-XXX]\<close>: the placeholder of a
  finding is \<open>[\<close>, then \<open>end - start - 2\<close> times \<open>X\<close>, then \<open>]\<close>, put in the place
  of the span of the finding. Its length is the larger of 2 and \<open>end - start\<close>: the
  width of the match for every match at least two characters wide. Redacting with no
  findings returns the text.\<close>

lemma length_preserving_placeholder:
  "replacement (PyStr ''[REDACTED-XXX]'') m =
     Inr (''['' @ replicate (nat (pii_end m - pii_start m - 2)) CHR ''X'' @ '']'')
   \<and> length (''['' @ replicate (nat (pii_end m - pii_start m - 2)) CHR ''X'' @ '']'')
       = max 2 (nat (pii_end m - pii_start m))
   \<and> redact_pii text [m] (PyStr ''[REDACTED-XXX]'') =
       Inr (slice_to text (pii_start m)
            @ ''['' @ replicate (nat (pii_end m - pii_start m - 2)) CHR ''X'' @ '']''
            @ slice_from text (pii_end m))
   \<and> redact_pii text [] style = Inr text"
proof -
  let ?r = "''['' @ replicate (nat (pii_end m - pii_start m - 2)) CHR ''X'' @ '']''"
  have l: "length ?r = max 2 (nat (pii_end m - pii_start m))"
    by (simp add: max_def) linarith
  have red: "redact_pii text [m] (PyStr ''[REDACTED-XXX]'') =
      Inr (slice_to text (pii_start m) @ ?r @ slice_from text (pii_end m))"
    by (simp add: redact_pii_def sorted_reverse_def replacement_xxx)
  have e: "redact_pii text [] style = Inr text"
    by (simp add: redact_pii_def)
  from replacement_xxx[of m] l red e show ?thesis by simp
qed

text \<open>
  C8 does not hold of the code. The style is meant to preserve the length of the match
  (the comment in the code says so), and the claim asks for a placeholder as long as
  the match, at least one character. For a finding one character wide the code
  computes \<open>'X' * (1 - 2)\<close>, the empty string, and substitutes \<open>[]\<close>: two characters
  where the match had one, so the redacted text is longer than the original.
\<close>

theorem width_one_placeholder_is_two_wide:
  "replacement (PyStr ''[REDACTED-XXX]'')
     \<lparr>pii_type = ''email'', pii_name = ''Email Address'', pii_value = Some ''a'',
      pii_start = 0, pii_end = 1, pii_severity = ''medium'', pii_confidence = 1\<rparr> = Inr ''[]''
   \<and> redact_pii ''a''
     [\<lparr>pii_type = ''email'', pii_name = ''Email Address'', pii_value = Some ''a'',
       pii_start = 0, pii_end = 1, pii_severity = ''medium'', pii_confidence = 1\<rparr>]
     (PyStr ''[REDACTED-XXX]'') = Inr ''[]''
   \<and> length ''[]'' \<noteq> nat (1 - 0)
   \<and> length ''[]'' \<noteq> length ''a''"
  by (simp add: redact_pii_def sorted_reverse_def replacement_def slice_to_def slice_from_def
      slice_index_def)

section \<open>The checksum validator\<close>

lemma luhn_sum_Cons: "luhn_sum (d # xs) = d + luhn_sum (0 # xs)"
  by (cases xs) simp_all

text \<open>The loop of the code computes the sum of the specification; at an odd index the
  digits still to come start with one that is doubled.\<close>

lemma luhn_loop_decimal:
  "\<forall>c\<in>set ds. decimal_value L c \<noteq> None \<Longrightarrow>
   luhn_loop L i ds tot =
     Inr (tot + luhn_sum (if even i then map (digit_value L) ds else 0 # map (digit_value L) ds))"
proof (induction ds arbitrary: i tot)
  case Nil
  then show ?case by simp
next
  case (Cons d ds)
  from Cons.prems have dd: "decimal_value L d \<noteq> None"
    and r: "\<forall>c\<in>set ds. decimal_value L c \<noteq> None"
    by simp_all
  from dd have d: "py_int L d = Inr (digit_value L d)"
    by (auto simp add: py_int_def digit_value_def)
  show ?case
  proof (cases "even i")
    case True
    then show ?thesis
      using Cons.IH[OF r, of "i + 1"] d luhn_sum_Cons[of "digit_value L d" "map (digit_value L) ds"]
      by (simp add: Let_def)
  next
    case False
    then have "i mod 2 = 1" by presburger
    then show ?thesis
      using Cons.IH[OF r, of "i + 1"] d False
      by (simp add: Let_def mult.commute)
  qed
qed









section \<open>The matcher\<close>

text \<open>The texts of the model have code points below 256 only, so the Unicode tables
  of the library never enter the validation of a match.\<close>

lemma luhn_loop_narrow:
  "\<forall>c\<in>set ds. c < 256 \<Longrightarrow> luhn_loop L' i ds tot = luhn_loop L i ds tot"
proof (induction ds arbitrary: i tot)
  case Nil
  then show ?case by simp
next
  case (Cons d ds)
  then have "py_int L' d = py_int L d" by (simp add: py_int_def decimal_value_def)
  with Cons show ?case by (simp add: Let_def split: sum.splits)
qed

lemma validate_credit_card_narrow:
  assumes "\<forall>c\<in>set cs. c < 256"
  shows "validate_credit_card L' cs = validate_credit_card L cs"
proof -
  have f: "filter (\<lambda>c. \<not> (c = 45 \<or> space_point L' c)) cs
             = filter (\<lambda>c. \<not> (c = 45 \<or> space_point L c)) cs"
    using assms by (intro filter_cong) (auto simp: space_point_def)
  let ?n = "filter (\<lambda>c. \<not> (c = 45 \<or> space_point L c)) cs"
  have n: "\<forall>c\<in>set ?n. c < 256" using assms by simp
  then have r: "\<forall>c\<in>set (rev ?n). c < 256" by simp
  have d: "isdigit L' ?n = isdigit L ?n"
    using n by (auto simp: isdigit_def digit_point_def list_all_iff)
  show ?thesis
    using f d luhn_loop_narrow[OF r, of L' 0 0 L]
    by (simp add: validate_credit_card_def Let_def)
qed

lemma validate_credit_card_codes:
  "validate_credit_card L' (codes s) = validate_credit_card L (codes s)"
  by (rule validate_credit_card_narrow) (auto simp: codes_def)

text \<open>A match of the credit-card pattern never makes the validator raise.\<close>

lemma validate_credit_card_returns:
  assumes "\<forall>c\<in>set g. decimal_digit c \<or> c = CHR ''-'' \<or> re_space c"
  shows "\<exists>b. validate_credit_card L (codes g) = Inr b"
proof -
  let ?n = "filter (\<lambda>c. \<not> (c = 45 \<or> space_point L c)) (codes g)"
  have "\<forall>c\<in>set (rev ?n). decimal_value L c \<noteq> None"
  proof
    fix c assume "c \<in> set (rev ?n)"
    then obtain ch where ch: "ch \<in> set g" and c: "c = of_char ch"
      and n45: "c \<noteq> 45" and ns: "\<not> space_point L c"
      by (auto simp: codes_def)
    have lt: "c < 256" using c by simp
    from n45 c have "ch \<noteq> CHR ''-''" by auto
    moreover from ns lt c have "\<not> re_space ch" by (simp add: space_point_def re_space_def)
    ultimately have "decimal_digit ch" using assms ch by blast
    then show "decimal_value L c \<noteq> None"
      using c lt by (simp add: decimal_digit_def decimal_value_def)
  qed
  from luhn_loop_decimal[OF this, of 0 0] show ?thesis
    by (auto simp: validate_credit_card_def Let_def)
qed

lemma pattern_matches_spans:
  assumes "ptype = ''credit_card'' \<longrightarrow>
      (\<forall>m\<in>set ms. \<forall>c\<in>set (m_group m). decimal_digit c \<or> c = CHR ''-'' \<or> re_space c)"
  shows "\<exists>found. pattern_matches L ptype cfg ms = Inr found
     \<and> (\<forall>x\<in>set found. pii_type x = ptype
           \<and> (\<exists>m\<in>set ms. pii_start x = m_start m \<and> pii_end x = m_end m))
     \<and> (sorted_wrt (\<lambda>a b. m_end a \<le> m_start b) ms
          \<longrightarrow> sorted_wrt (\<lambda>a b. pii_end a \<le> pii_start b) found)"
  using assms
proof (induction ms)
  case Nil
  then show ?case by simp
next
  case (Cons m ms)
  from Cons obtain found where f: "pattern_matches L ptype cfg ms = Inr found"
    and t: "\<forall>x\<in>set found. pii_type x = ptype
           \<and> (\<exists>m\<in>set ms. pii_start x = m_start m \<and> pii_end x = m_end m)"
    and s: "sorted_wrt (\<lambda>a b. m_end a \<le> m_start b) ms
          \<longrightarrow> sorted_wrt (\<lambda>a b. pii_end a \<le> pii_start b) found"
    by auto
  have "\<exists>ok. (if ptype = ''credit_card'' then validate_credit_card L (codes (m_group m))
              else Inr True) = Inr ok"
    using Cons.prems validate_credit_card_returns[of "m_group m" L] by auto
  then obtain ok where ok: "(if ptype = ''credit_card'' then validate_credit_card L (codes (m_group m))
              else Inr True) = Inr ok"
    by blast
  show ?case
  proof (cases ok)
    case False
    then have "pattern_matches L ptype cfg (m # ms) = Inr found"
      using ok f by (simp add: Let_def)
    then show ?thesis using t s by auto
  next
    case True
    let ?x = "\<lparr>pii_type = ptype, pii_name = pc_name cfg,
                pii_value = (case m_groups m of [] \<Rightarrow> Some (m_group m) | g # _ \<Rightarrow> g),
                pii_start = m_start m, pii_end = m_end m,
                pii_severity = pc_severity cfg, pii_confidence = 1\<rparr>"
    from True have r: "pattern_matches L ptype cfg (m # ms) = Inr (?x # found)"
      using ok f by (simp add: Let_def)
    have "sorted_wrt (\<lambda>a b. m_end a \<le> m_start b) (m # ms)
          \<longrightarrow> sorted_wrt (\<lambda>a b. pii_end a \<le> pii_start b) (?x # found)"
      using t s by auto
    then show ?thesis using r t by auto
  qed
qed

lemma all_matches_by_type:
  assumes "distinct (map fst ps)"
      and "\<forall>(k, c)\<in>set ps. sorted_wrt (\<lambda>a b. m_end a \<le> m_start b) (re_finditer L (pc_pattern c) text)
             \<and> (\<forall>m\<in>set (re_finditer L (pc_pattern c) text). m_start m \<le> m_end m)"
      and "\<forall>(k, c)\<in>set ps. k = ''credit_card'' \<longrightarrow>
             (\<forall>m\<in>set (re_finditer L (pc_pattern c) text).
                \<forall>ch\<in>set (m_group m). decimal_digit ch \<or> ch = CHR ''-'' \<or> re_space ch)"
  shows "\<exists>ms. all_matches L text ps = Inr ms
     \<and> (\<forall>x\<in>set ms. pii_type x \<in> fst ` set ps \<and> pii_start x \<le> pii_end x)
     \<and> (\<forall>t. sorted_wrt (\<lambda>a b. pii_end a \<le> pii_start b) (filter (\<lambda>x. pii_type x = t) ms))"
  using assms
proof (induction ps)
  case Nil
  then show ?case by simp
next
  case (Cons p ps)
  obtain k c where p: "p = (k, c)" by (cases p)
  from Cons obtain ms where a: "all_matches L text ps = Inr ms"
    and ty: "\<forall>x\<in>set ms. pii_type x \<in> fst ` set ps \<and> pii_start x \<le> pii_end x"
    and so: "\<forall>t. sorted_wrt (\<lambda>a b. pii_end a \<le> pii_start b) (filter (\<lambda>x. pii_type x = t) ms)"
    by auto
  let ?F = "re_finditer L (pc_pattern c) text"
  have safe: "k = ''credit_card'' \<longrightarrow>
      (\<forall>m\<in>set ?F. \<forall>ch\<in>set (m_group m). decimal_digit ch \<or> ch = CHR ''-'' \<or> re_space ch)"
    using Cons.prems(3) p by auto
  have srt: "sorted_wrt (\<lambda>a b. m_end a \<le> m_start b) ?F" and le: "\<forall>m\<in>set ?F. m_start m \<le> m_end m"
    using Cons.prems(2) p by auto
  from pattern_matches_spans[OF safe, of L c] srt obtain found where
    f: "pattern_matches L k c ?F = Inr found"
    and ft: "\<forall>x\<in>set found. pii_type x = k
           \<and> (\<exists>m\<in>set ?F. pii_start x = m_start m \<and> pii_end x = m_end m)"
    and fs: "sorted_wrt (\<lambda>a b. pii_end a \<le> pii_start b) found"
    by blast
  have res: "all_matches L text (p # ps) = Inr (found @ ms)"
    using f a p by simp
  have knew: "k \<notin> fst ` set ps" using Cons.prems(1) p by auto
  have f1: "\<And>t. filter (\<lambda>x. pii_type x = t) found = (if t = k then found else [])"
    using ft by (auto simp: filter_empty_conv intro: filter_True)
  have f2: "filter (\<lambda>x. pii_type x = k) ms = []"
    using ty knew by (auto simp: filter_empty_conv)
  have "\<forall>t. sorted_wrt (\<lambda>a b. pii_end a \<le> pii_start b) (filter (\<lambda>x. pii_type x = t) (found @ ms))"
    using f1 f2 fs so by auto
  moreover have "\<forall>x\<in>set (found @ ms). pii_type x \<in> fst ` set (p # ps) \<and> pii_start x \<le> pii_end x"
    using ft ty le p by fastforce
  ultimately show ?case using res by blast
qed

lemma sorted_wrt_filter_nth:
  "sorted_wrt R (filter P xs) \<Longrightarrow> i < j \<Longrightarrow> j < length xs \<Longrightarrow> P (xs ! i) \<Longrightarrow> P (xs ! j)
   \<Longrightarrow> R (xs ! i) (xs ! j)"
proof (induction xs arbitrary: i j)
  case Nil
  then show ?case by simp
next
  case (Cons x xs)
  show ?case
  proof (cases i)
    case 0
    then obtain j' where j: "j = Suc j'" using Cons.prems(2) by (cases j) auto
    then have "xs ! j' \<in> set (filter P xs)" using Cons.prems by auto
    then show ?thesis using Cons.prems 0 j by auto
  next
    case (Suc i')
    then obtain j' where j: "j = Suc j'" using Cons.prems(2) by (cases j) auto
    have "sorted_wrt R (filter P xs)" using Cons.prems(1) by (auto split: if_splits)
    from Cons.IH[OF this, of i' j'] show ?thesis using Cons.prems Suc j by auto
  qed
qed

lemma patterns_distinct:
  "distinct (map fst PII_PATTERNS)"
  "distinct (map fst (dict_update PII_PATTERNS EXTENDED_PATTERNS))"
  by (simp_all add: PII_PATTERNS_def EXTENDED_PATTERNS_def dict_update_def)

lemma patterns_credit_card:
  "(k, c) \<in> set (if extended then dict_update PII_PATTERNS EXTENDED_PATTERNS else PII_PATTERNS)
   \<Longrightarrow> k = ''credit_card'' \<Longrightarrow> pc_pattern c = rx ''~b(?:~d{4}[-~s]?){3}~d{4}~b''"
  by (auto simp add: PII_PATTERNS_def EXTENDED_PATTERNS_def dict_update_def split: if_splits)

lemma pattern_matches_engine:
  "pattern_matches L' ptype cfg ms = pattern_matches L ptype cfg ms"
  by (induction ms) (simp_all add: validate_credit_card_codes[of L' _ L] Let_def)

lemma all_matches_engine:
  "re_finditer L' = re_finditer L \<Longrightarrow> all_matches L' text ps = all_matches L text ps"
  by (induction ps) (auto simp: pattern_matches_engine[of L' _ _ _ L] split: sum.splits)

text \<open>
  C7. The regular-expression engine returns the matches of one pattern from left to
  right and without overlap, each with its start not after its end, and a match of the
  credit-card pattern holds digits, hyphens and white space only. Then, for either
  pattern set, \<open>detect_pii\<close> returns a list of findings that is sorted by start offset
  and in which a finding ends before any later finding of the same category starts,
  so no two findings of one category overlap. The list is determined by the text,
  the pattern set and the answers of the engine: nothing else of the library enters.
\<close>

theorem detect_pii_sorted_non_overlapping:
  assumes "\<forall>p. sorted_wrt (\<lambda>a b. m_end a \<le> m_start b) (re_finditer L p text)
             \<and> (\<forall>m\<in>set (re_finditer L p text). m_start m \<le> m_end m)"
      and "\<forall>m\<in>set (re_finditer L (rx ''~b(?:~d{4}[-~s]?){3}~d{4}~b'') text).
             \<forall>ch\<in>set (m_group m). decimal_digit ch \<or> ch = CHR ''-'' \<or> re_space ch"
  shows "\<exists>ms. detect_pii L text extended = Inr ms
     \<and> sorted (map pii_start ms)
     \<and> (\<forall>i j. i < j \<and> j < length ms \<and> pii_type (ms ! i) = pii_type (ms ! j)
            \<longrightarrow> pii_end (ms ! i) \<le> pii_start (ms ! j))
     \<and> (\<forall>L' :: lib. re_finditer L' = re_finditer L \<longrightarrow> detect_pii L' text extended = Inr ms)"
proof -
  let ?ps = "if extended then dict_update PII_PATTERNS EXTENDED_PATTERNS else PII_PATTERNS"
  have d: "distinct (map fst ?ps)"
    using patterns_distinct by simp
  have c: "\<forall>(k, c)\<in>set ?ps. sorted_wrt (\<lambda>a b. m_end a \<le> m_start b) (re_finditer L (pc_pattern c) text)
             \<and> (\<forall>m\<in>set (re_finditer L (pc_pattern c) text). m_start m \<le> m_end m)"
    using assms(1) by auto
  have s: "\<forall>(k, c)\<in>set ?ps. k = ''credit_card'' \<longrightarrow>
             (\<forall>m\<in>set (re_finditer L (pc_pattern c) text).
                \<forall>ch\<in>set (m_group m). decimal_digit ch \<or> ch = CHR ''-'' \<or> re_space ch)"
  proof (intro ballI, clarify)
    fix c m ch
    assume "(''credit_card'', c) \<in> set ?ps" and m: "m \<in> set (re_finditer L (pc_pattern c) text)"
      and ch: "ch \<in> set (m_group m)" and "\<not> decimal_digit ch" and "\<not> re_space ch"
    from patterns_credit_card[OF this(1)] have "pc_pattern c = rx ''~b(?:~d{4}[-~s]?){3}~d{4}~b''"
      by simp
    with assms(2) m ch \<open>\<not> decimal_digit ch\<close> \<open>\<not> re_space ch\<close> show "ch = CHR ''-''"
      by auto
  qed
  from all_matches_by_type[OF d c s] obtain ms0 where
    a: "all_matches L text ?ps = Inr ms0"
    and le: "\<forall>x\<in>set ms0. pii_type x \<in> fst ` set ?ps \<and> pii_start x \<le> pii_end x"
    and so: "\<forall>t. sorted_wrt (\<lambda>a b. pii_end a \<le> pii_start b) (filter (\<lambda>x. pii_type x = t) ms0)"
    by blast
  let ?ms = "sort_key pii_start ms0"
  have r: "detect_pii L text extended = Inr ?ms"
    using a by (simp add: detect_pii_def Let_def)
  have r': "\<forall>L' :: lib. re_finditer L' = re_finditer L \<longrightarrow> detect_pii L' text extended = Inr ?ms"
  proof (intro allI impI)
    fix L' :: lib
    assume "re_finditer L' = re_finditer L"
    from all_matches_engine[OF this, of "text" ?ps] a
    have "all_matches L' text ?ps = Inr ms0" by simp
    then show "detect_pii L' text extended = Inr ?ms"
      by (simp add: detect_pii_def Let_def)
  qed
  have by_type: "sorted_wrt (\<lambda>a b. pii_end a \<le> pii_start b) (filter (\<lambda>x. pii_type x = t) ?ms)" for t
  proof -
    let ?g = "filter (\<lambda>x. pii_type x = t) ms0"
    have g: "sorted_wrt (\<lambda>a b. pii_end a \<le> pii_start b) ?g" using so by blast
    have "sorted_wrt (\<lambda>a b. pii_start a \<le> pii_start b) ?g"
      by (rule sorted_wrt_mono_rel[OF _ g]) (use le in fastforce)
    then have "sorted (map pii_start ?g)" by (simp add: sorted_map)
    then have "sort_key pii_start ?g = ?g" by (rule sort_key_id_if_sorted)
    then show ?thesis using g by (simp add: filter_sort)
  qed
  have "\<forall>i j. i < j \<and> j < length ?ms \<and> pii_type (?ms ! i) = pii_type (?ms ! j)
            \<longrightarrow> pii_end (?ms ! i) \<le> pii_start (?ms ! j)"
  proof (intro allI impI)
    fix i j
    assume h: "i < j \<and> j < length ?ms \<and> pii_type (?ms ! i) = pii_type (?ms ! j)"
    from sorted_wrt_filter_nth[OF by_type[of "pii_type (?ms ! j)"], of i j] h
    show "pii_end (?ms ! i) \<le> pii_start (?ms ! j)" by simp
  qed
  then show ?thesis using r r' by (intro exI[of _ ?ms]) simp
qed

theorem detect_pii_sorted_non_overlapping_witness:
  "\<exists>ms. detect_pii example_lib ''Email: john@example.com, SSN: 123-45-6789'' False = Inr ms
     \<and> map pii_type ms = [''email'', ''ssn'']
     \<and> map pii_start ms = [7, 30] \<and> map pii_end ms = [23, 41]
     \<and> sorted (map pii_start ms)"
proof -
  have h1: "\<forall>p. sorted_wrt (\<lambda>a b. m_end a \<le> m_start b)
                (re_finditer example_lib p ''Email: john@example.com, SSN: 123-45-6789'')
             \<and> (\<forall>m\<in>set (re_finditer example_lib p ''Email: john@example.com, SSN: 123-45-6789'').
                   m_start m \<le> m_end m)"
    by (simp add: example_lib_def example_finditer_def)
  have h2: "\<forall>m\<in>set (re_finditer example_lib (rx ''~b(?:~d{4}[-~s]?){3}~d{4}~b'')
                       ''Email: john@example.com, SSN: 123-45-6789'').
             \<forall>ch\<in>set (m_group m). decimal_digit ch \<or> ch = CHR ''-'' \<or> re_space ch"
    by (simp add: example_lib_def example_finditer_def rx_def)
  from detect_pii_sorted_non_overlapping[OF h1 h2, of False] obtain ms where
    r: "detect_pii example_lib ''Email: john@example.com, SSN: 123-45-6789'' False = Inr ms"
    and s: "sorted (map pii_start ms)"
    by blast
  have e: "detect_pii example_lib ''Email: john@example.com, SSN: 123-45-6789'' False =
      Inr [\<lparr>pii_type = ''email'', pii_name = ''Email Address'',
             pii_value = Some ''john@example.com'', pii_start = 7, pii_end = 23,
             pii_severity = ''medium'', pii_confidence = 1\<rparr>,
           \<lparr>pii_type = ''ssn'', pii_name = ''Social Security Number'',
             pii_value = Some ''123-45-6789'', pii_start = 30, pii_end = 41,
             pii_severity = ''high'', pii_confidence = 1\<rparr>]"
    by (simp add: detect_pii_def PII_PATTERNS_def example_lib_def example_finditer_def rx_def)
  from r s e show ?thesis by auto
qed

section \<open>The ledger\<close>

text \<open>The loop of \<open>verify_hash_chain\<close> reports what the specification describes.\<close>

lemma verify_loop_mismatches:
  "verify_loop L rows (valid, bad, prev) =
     (valid \<and> mismatches L prev rows = [], bad @ mismatches L prev rows,
      if rows = [] then prev else row_hash (last rows))"
proof (induction rows arbitrary: valid bad prev)
  case Nil
  then show ?case by simp
next
  case (Cons r rows)
  then show ?case by (simp add: Let_def)
qed

lemma order_by_id_sorted: "sorted (map row_id rows) \<Longrightarrow> order_by_id rows = rows"
  by (simp add: order_by_id_def sort_key_id_if_sorted)

lemma verify_hash_chain_full:
  "sorted (map row_id (audit_log d)) \<Longrightarrow>
   vr_invalid_entries (verify_hash_chain L None d) = mismatches L ''genesis'' (audit_log d)
   \<and> vr_valid (verify_hash_chain L None d) = (mismatches L ''genesis'' (audit_log d) = [])
   \<and> vr_entries_checked (verify_hash_chain L None d) = length (audit_log d)"
  by (simp add: verify_hash_chain_def Let_def order_by_id_sorted verify_loop_mismatches)

text \<open>In an intact chain every stored hash is the hash of its row and of the hash before it.\<close>

lemma intact_link:
  "mismatches L prev rows = [] \<Longrightarrow> k < length rows \<Longrightarrow>
   calculate_hash L (row_entry_data (rows ! k)) (if k = 0 then prev else row_hash (rows ! (k - 1)))
     = row_hash (rows ! k)"
proof (induction rows arbitrary: k prev)
  case Nil
  then show ?case by simp
next
  case (Cons r rows)
  from Cons.prems(1) have h: "calculate_hash L (row_entry_data r) prev = row_hash r"
    and t: "mismatches L (row_hash r) rows = []"
    by (auto split: if_splits)
  show ?case
  proof (cases k)
    case 0
    then show ?thesis using h by simp
  next
    case (Suc k')
    then have "k' < length rows" using Cons.prems(2) by simp
    from Cons.IH[OF t this] show ?thesis using Suc by (cases k') simp_all
  qed
qed

lemma mismatches_update_same_hash:
  "mismatches L prev rows = [] \<Longrightarrow> k < length rows \<Longrightarrow> row_hash r' = row_hash (rows ! k) \<Longrightarrow>
   mismatches L prev (rows[k := r']) =
     (let p = (if k = 0 then prev else row_hash (rows ! (k - 1)))
      in if calculate_hash L (row_entry_data r') p \<noteq> row_hash r'
         then [\<lparr>ie_id = row_id r', ie_expected_hash = calculate_hash L (row_entry_data r') p,
                ie_actual_hash = row_hash r'\<rparr>]
         else [])"
proof (induction rows arbitrary: k prev)
  case Nil
  then show ?case by simp
next
  case (Cons r rows)
  from Cons.prems(1) have h: "calculate_hash L (row_entry_data r) prev = row_hash r"
    and t: "mismatches L (row_hash r) rows = []"
    by (auto split: if_splits)
  show ?case
  proof (cases k)
    case 0
    then show ?thesis using t Cons.prems(3) by (simp add: Let_def)
  next
    case (Suc k')
    then have k': "k' < length rows" and e: "row_hash r' = row_hash (rows ! k')"
      using Cons.prems by simp_all
    from Cons.IH[OF t k' e] show ?thesis using Suc h by (cases k') (simp_all add: Let_def)
  qed
qed

lemma mismatches_update_hash:
  "mismatches L prev rows = [] \<Longrightarrow> k < length rows \<Longrightarrow>
   row_entry_data r' = row_entry_data (rows ! k) \<Longrightarrow> row_hash r' \<noteq> row_hash (rows ! k) \<Longrightarrow>
   row_id r' \<in> ie_id ` set (mismatches L prev (rows[k := r']))"
proof (induction rows arbitrary: k prev)
  case Nil
  then show ?case by simp
next
  case (Cons r rows)
  from Cons.prems(1) have h: "calculate_hash L (row_entry_data r) prev = row_hash r"
    and t: "mismatches L (row_hash r) rows = []"
    by (auto split: if_splits)
  show ?case
  proof (cases k)
    case 0
    then show ?thesis using h Cons.prems by simp
  next
    case (Suc k')
    then have k': "k' < length rows" and e: "row_entry_data r' = row_entry_data (rows ! k')"
      and n: "row_hash r' \<noteq> row_hash (rows ! k')"
      using Cons.prems by simp_all
    from Cons.IH[OF t k' e n] show ?thesis using Suc h by simp
  qed
qed

lemma update_keeps_ids:
  "k < length rows \<Longrightarrow> row_id r' = row_id (rows ! k) \<Longrightarrow> map row_id (rows[k := r']) = map row_id rows"
  by (simp add: map_update list_update_same_conv)

lemmas db_eval =
  insert_row_def last_hash_def next_id_def order_by_id_def calculate_hash_def dict_get_def
  dict_get_default_def example_lib_def example_hash_def empty_database_def example_entry_def
  example_row_def partial_entry_def row_entry_data_def verify_hash_chain_def Let_def
  add_audit_entry_def add_audit_entry_commits_def update_statistics_def

lemma example_row_inserted: "insert_row example_lib example_entry empty_database = Inr example_row"
  by (simp add: db_eval)

text \<open>
  C2, as amended. Take a ledger whose rows are in the order of their ids and whose
  chain verifies, and replace the row at position \<open>k\<close> by a row with the same id.
  \<^item> When the stored hash is kept, one of the hashed columns (timestamp, event
    type, original text, action taken) is changed, and the hash function gives
    the new content of these columns (with the hash of the row before) a hash other
    than that of the old content, verification reports exactly that row.
  \<^item> When the hashed columns are kept and the stored hash is changed, verification
    reports that row.
  \<^item> When the hashed columns and the stored hash are kept, whatever else of the row
    is changed (redacted text, findings, violations, user, session, metadata, the
    stored previous hash, the creation time), verification reports nothing.
\<close>

theorem tampering_reported_for_hashed_columns:
  assumes "sorted (map row_id (audit_log d))"
      and "vr_valid (verify_hash_chain L None d)"
      and "k < length (audit_log d)"
      and "row_id r' = row_id (audit_log d ! k)"
  shows "(row_hash r' = row_hash (audit_log d ! k)
          \<and> (row_timestamp r', row_event_type r', row_original_text r', row_action_taken r')
               \<noteq> (row_timestamp (audit_log d ! k), row_event_type (audit_log d ! k),
                   row_original_text (audit_log d ! k), row_action_taken (audit_log d ! k))
          \<and> sha256_json L
               \<lparr>hd_timestamp = Some (row_timestamp r'),
                hd_event_type = Some (row_event_type r'),
                hd_original_text = row_original_text r',
                hd_action_taken = row_action_taken r',
                hd_prev_hash = (if k = 0 then ''genesis'' else row_hash (audit_log d ! (k - 1)))\<rparr>
             \<noteq> sha256_json L
               \<lparr>hd_timestamp = Some (row_timestamp (audit_log d ! k)),
                hd_event_type = Some (row_event_type (audit_log d ! k)),
                hd_original_text = row_original_text (audit_log d ! k),
                hd_action_taken = row_action_taken (audit_log d ! k),
                hd_prev_hash = (if k = 0 then ''genesis'' else row_hash (audit_log d ! (k - 1)))\<rparr>
          \<longrightarrow> map ie_id (vr_invalid_entries
                  (verify_hash_chain L None (d\<lparr>audit_log := (audit_log d)[k := r']\<rparr>)))
               = [row_id (audit_log d ! k)])
       \<and> ((row_timestamp r', row_event_type r', row_original_text r', row_action_taken r')
               = (row_timestamp (audit_log d ! k), row_event_type (audit_log d ! k),
                   row_original_text (audit_log d ! k), row_action_taken (audit_log d ! k))
          \<and> row_hash r' \<noteq> row_hash (audit_log d ! k)
          \<longrightarrow> row_id (audit_log d ! k)
                \<in> set (map ie_id (vr_invalid_entries
                  (verify_hash_chain L None (d\<lparr>audit_log := (audit_log d)[k := r']\<rparr>)))))
       \<and> ((row_timestamp r', row_event_type r', row_original_text r', row_action_taken r')
               = (row_timestamp (audit_log d ! k), row_event_type (audit_log d ! k),
                   row_original_text (audit_log d ! k), row_action_taken (audit_log d ! k))
          \<and> row_hash r' = row_hash (audit_log d ! k)
          \<longrightarrow> vr_valid (verify_hash_chain L None (d\<lparr>audit_log := (audit_log d)[k := r']\<rparr>))
              \<and> vr_invalid_entries
                  (verify_hash_chain L None (d\<lparr>audit_log := (audit_log d)[k := r']\<rparr>)) = [])"
proof -
  let ?rows = "audit_log d"
  let ?p = "if k = 0 then ''genesis'' else row_hash (?rows ! (k - 1))"
  let ?d' = "d\<lparr>audit_log := ?rows[k := r']\<rparr>"
  let ?same = "(row_timestamp r', row_event_type r', row_original_text r', row_action_taken r')
               = (row_timestamp (?rows ! k), row_event_type (?rows ! k),
                   row_original_text (?rows ! k), row_action_taken (?rows ! k))"
  have hashed: "calculate_hash L (row_entry_data r) q =
      sha256_json L \<lparr>hd_timestamp = Some (row_timestamp r),
                hd_event_type = Some (row_event_type r),
                hd_original_text = row_original_text r,
                hd_action_taken = row_action_taken r, hd_prev_hash = q\<rparr>" for r q
    by (simp add: calculate_hash_def row_entry_data_def dict_get_def)
  have data: "?same \<Longrightarrow> row_entry_data r' = row_entry_data (?rows ! k)"
    by (simp add: row_entry_data_def)
  have intact: "mismatches L ''genesis'' ?rows = []"
    using assms(1,2) by (simp add: verify_hash_chain_full)
  have "sorted (map row_id (audit_log ?d'))"
    using assms(1,3,4) by (simp add: update_keeps_ids)
  then have v: "vr_invalid_entries (verify_hash_chain L None ?d')
                  = mismatches L ''genesis'' (?rows[k := r'])"
    and vv: "vr_valid (verify_hash_chain L None ?d')
                  = (mismatches L ''genesis'' (?rows[k := r']) = [])"
    using verify_hash_chain_full[of ?d' L] by simp_all
  have link: "calculate_hash L (row_entry_data (?rows ! k)) ?p = row_hash (?rows ! k)"
    using intact_link[OF intact assms(3)] by simp
  have same: "row_hash r' = row_hash (?rows ! k) \<Longrightarrow>
      mismatches L ''genesis'' (?rows[k := r']) =
        (if calculate_hash L (row_entry_data r') ?p \<noteq> row_hash r'
         then [\<lparr>ie_id = row_id r', ie_expected_hash = calculate_hash L (row_entry_data r') ?p,
                ie_actual_hash = row_hash r'\<rparr>]
         else [])"
    using mismatches_update_same_hash[OF intact assms(3)] by (simp add: Let_def)
  show ?thesis
  proof (intro conjI impI)
    assume a: "row_hash r' = row_hash (?rows ! k)
          \<and> (row_timestamp r', row_event_type r', row_original_text r', row_action_taken r')
               \<noteq> (row_timestamp (?rows ! k), row_event_type (?rows ! k),
                   row_original_text (?rows ! k), row_action_taken (?rows ! k))
          \<and> sha256_json L
               \<lparr>hd_timestamp = Some (row_timestamp r'),
                hd_event_type = Some (row_event_type r'),
                hd_original_text = row_original_text r',
                hd_action_taken = row_action_taken r', hd_prev_hash = ?p\<rparr>
             \<noteq> sha256_json L
               \<lparr>hd_timestamp = Some (row_timestamp (?rows ! k)),
                hd_event_type = Some (row_event_type (?rows ! k)),
                hd_original_text = row_original_text (?rows ! k),
                hd_action_taken = row_action_taken (?rows ! k), hd_prev_hash = ?p\<rparr>"
    then have "calculate_hash L (row_entry_data r') ?p
        \<noteq> calculate_hash L (row_entry_data (?rows ! k)) ?p"
      unfolding hashed by blast
    then show "map ie_id (vr_invalid_entries (verify_hash_chain L None ?d')) = [row_id (?rows ! k)]"
      using a same link assms(4) v by auto
  next
    assume a: "?same \<and> row_hash r' \<noteq> row_hash (?rows ! k)"
    then show "row_id (?rows ! k) \<in> set (map ie_id (vr_invalid_entries (verify_hash_chain L None ?d')))"
      using mismatches_update_hash[OF intact assms(3), of r'] data assms(4) v by auto
  next
    assume a: "?same \<and> row_hash r' = row_hash (?rows ! k)"
    then show "vr_valid (verify_hash_chain L None ?d')"
      using same link data v vv by auto
  next
    assume a: "?same \<and> row_hash r' = row_hash (?rows ! k)"
    then show "vr_invalid_entries (verify_hash_chain L None ?d') = []"
      using same link data v by auto
  qed
qed

lemma example_intact:
  "vr_valid (verify_hash_chain example_lib None
      \<lparr>audit_log = [example_row], audit_seq = 1, statistics = Map.empty\<rparr>)"
  by (simp add: db_eval)

theorem tampering_reported_for_hashed_columns_witness:
  "map ie_id (vr_invalid_entries (verify_hash_chain example_lib None
      \<lparr>audit_log = [example_row\<lparr>row_original_text := Some ''Altered entry''\<rparr>], audit_seq = 1,
       statistics = Map.empty\<rparr>)) = [1]
   \<and> 1 \<in> set (map ie_id (vr_invalid_entries (verify_hash_chain example_lib None
      \<lparr>audit_log = [example_row\<lparr>row_hash := ''0000''\<rparr>], audit_seq = 1,
       statistics = Map.empty\<rparr>)))
   \<and> vr_valid (verify_hash_chain example_lib None
      \<lparr>audit_log = [example_row\<lparr>row_user_id := Some ''mallory''\<rparr>], audit_seq = 1,
       statistics = Map.empty\<rparr>)"
proof -
  let ?d = "\<lparr>audit_log = [example_row], audit_seq = 1, statistics = Map.empty\<rparr>"
  have s: "sorted (map row_id (audit_log ?d))" by simp
  have k: "0 < length (audit_log ?d)" by simp
  note t = tampering_reported_for_hashed_columns[OF s example_intact k]
  have 1: "row_id (example_row\<lparr>row_original_text := Some ''Altered entry''\<rparr>) = row_id (audit_log ?d ! 0)"
    by simp
  have 2: "row_id (example_row\<lparr>row_hash := ''0000''\<rparr>) = row_id (audit_log ?d ! 0)"
    by simp
  have 3: "row_id (example_row\<lparr>row_user_id := Some ''mallory''\<rparr>) = row_id (audit_log ?d ! 0)"
    by simp
  from t[OF 1] t[OF 2] t[OF 3] show ?thesis
    by (simp add: row_entry_data_def calculate_hash_def example_lib_def example_hash_def
        example_row_def dict_get_def)
qed

text \<open>
  C2, as stated, fails: changing the redacted text of a stored record leaves
  verification valid, with no invalid entry.
\<close>

theorem unhashed_column_change_goes_unreported:
  "insert_row example_lib example_entry empty_database = Inr example_row
   \<and> vr_valid (verify_hash_chain example_lib None
        \<lparr>audit_log = [example_row], audit_seq = 1, statistics = Map.empty\<rparr>)
   \<and> vr_valid (verify_hash_chain example_lib None
        \<lparr>audit_log = [example_row\<lparr>row_redacted_text := Some ''altered''\<rparr>], audit_seq = 1,
         statistics = Map.empty\<rparr>)
   \<and> vr_invalid_entries (verify_hash_chain example_lib None
        \<lparr>audit_log = [example_row\<lparr>row_redacted_text := Some ''altered''\<rparr>], audit_seq = 1,
         statistics = Map.empty\<rparr>) = []"
  by (simp add: db_eval)

lemma add_audit_entry_refused:
  "second_writer_refused L \<Longrightarrow>
   \<exists>e. add_audit_entry_commits L entry d = (Inl e, []) \<and> add_audit_entry L entry d = (Inl e, d)"
  by (auto simp: add_audit_entry_def add_audit_entry_commits_def update_statistics_def Let_def
      split: sum.splits)

lemma append_all_refused: "second_writer_refused L \<Longrightarrow> append_all L entries d = d"
proof (induction entries arbitrary: d)
  case Nil
  then show ?case by simp
next
  case (Cons e es)
  from add_audit_entry_refused[OF Cons.prems, of e d] Cons.IH[OF Cons.prems] show ?case
    by auto
qed

lemma add_audit_entry_admitted:
  "\<not> second_writer_refused L \<Longrightarrow> insert_row L entry d = Inr row \<Longrightarrow>
   \<exists>d1. update_statistics L True entry d = Inr d1 \<and> audit_log d1 = audit_log d
     \<and> audit_seq d1 = audit_seq d
     \<and> add_audit_entry_commits L entry d
         = (Inr (row_hash row), [d1, d1\<lparr>audit_log := audit_log d @ [row], audit_seq := row_id row\<rparr>])
     \<and> add_audit_entry L entry d
         = (Inr (row_hash row), d1\<lparr>audit_log := audit_log d @ [row], audit_seq := row_id row\<rparr>)"
  by (simp add: add_audit_entry_def add_audit_entry_commits_def update_statistics_def Let_def)

lemma insert_row_hash:
  "insert_row L entry d = Inr row \<Longrightarrow> row_hash row = calculate_hash L entry (last_hash d)"
  by (auto simp: insert_row_def Let_def split: option.splits prod.splits)

text \<open>
  C3 does not hold of the code. With a storage engine that refuses the second writer,
  as SQLite does, no append commits anything: after any sequence of appends to the
  empty ledger the ledger is still empty and verification checks no entry. With a
  storage engine that lets the second writer through, the appended row is hashed
  from the entry as given but stored with the defaults for missing keys; when the
  hash function tells the two apart, the ledger holding that one appended record
  does not verify.
\<close>

theorem appended_ledger_fails_verification:
  "(second_writer_refused L
      \<longrightarrow> append_all L entries empty_database = empty_database
          \<and> vr_entries_checked (verify_hash_chain L None (append_all L entries empty_database)) = 0)
   \<and> (\<not> second_writer_refused L \<and> insert_row L entry empty_database = Inr row
       \<and> calculate_hash L (row_entry_data row) ''genesis'' \<noteq> calculate_hash L entry ''genesis''
      \<longrightarrow> \<not> vr_valid (verify_hash_chain L None (append_all L [entry] empty_database))
          \<and> map ie_id (vr_invalid_entries
                (verify_hash_chain L None (append_all L [entry] empty_database))) = [row_id row])"
proof (intro conjI impI)
  assume r: "second_writer_refused L"
  show "append_all L entries empty_database = empty_database"
    by (rule append_all_refused[OF r])
  then show "vr_entries_checked (verify_hash_chain L None (append_all L entries empty_database)) = 0"
    by (simp add: verify_hash_chain_def empty_database_def order_by_id_def Let_def)
next
  assume a: "\<not> second_writer_refused L \<and> insert_row L entry empty_database = Inr row
       \<and> calculate_hash L (row_entry_data row) ''genesis'' \<noteq> calculate_hash L entry ''genesis''"
  then obtain d1 where d1: "audit_log d1 = audit_log empty_database"
    and ad: "add_audit_entry L entry empty_database
         = (Inr (row_hash row), d1\<lparr>audit_log := audit_log empty_database @ [row], audit_seq := row_id row\<rparr>)"
    using add_audit_entry_admitted[of L entry empty_database row] by blast
  have h: "row_hash row = calculate_hash L entry ''genesis''"
    using insert_row_hash[of L entry empty_database row] a
    by (simp add: last_hash_def empty_database_def order_by_id_def)
  have l: "audit_log (append_all L [entry] empty_database) = [row]"
    using ad by (simp add: empty_database_def)
  have v: "vr_invalid_entries (verify_hash_chain L None (append_all L [entry] empty_database))
             = mismatches L ''genesis'' [row]"
    and vv: "vr_valid (verify_hash_chain L None (append_all L [entry] empty_database))
             = (mismatches L ''genesis'' [row] = [])"
    using verify_hash_chain_full[of "append_all L [entry] empty_database" L] l by simp_all
  show "\<not> vr_valid (verify_hash_chain L None (append_all L [entry] empty_database))"
    using vv a h by simp
  show "map ie_id (vr_invalid_entries
                (verify_hash_chain L None (append_all L [entry] empty_database))) = [row_id row]"
    using v a h by simp
qed

theorem appended_ledger_fails_verification_witness:
  "append_all example_lib [example_entry] empty_database = empty_database
   \<and> vr_entries_checked
       (verify_hash_chain example_lib None (append_all example_lib [example_entry] empty_database)) = 0
   \<and> \<not> vr_valid (verify_hash_chain (example_lib\<lparr>second_writer_refused := False\<rparr>) None
         (append_all (example_lib\<lparr>second_writer_refused := False\<rparr>) [partial_entry] empty_database))
   \<and> map ie_id (vr_invalid_entries
         (verify_hash_chain (example_lib\<lparr>second_writer_refused := False\<rparr>) None
           (append_all (example_lib\<lparr>second_writer_refused := False\<rparr>) [partial_entry]
              empty_database))) = [1]"
proof -
  let ?L = "example_lib\<lparr>second_writer_refused := False\<rparr>"
  let ?row = "\<lparr>row_id = 1, row_timestamp = ''2024-01-01T12:00:00'', row_event_type = ''scan'',
      row_original_text = Some ''Test entry'', row_redacted_text = None,
      row_pii_detected = [], row_policy_violations = [],
      row_action_taken = Some ''allowed'', row_user_id = None, row_session_id = None,
      row_metadata = [],
      row_hash = ''null,null,<Test entry>,genesis,null'',
      row_prev_hash = Some ''genesis'', row_created_at = ''2024-01-01 12:00:00''\<rparr>"
  have i: "insert_row ?L partial_entry empty_database = Inr ?row"
    by (simp add: db_eval)
  have s: "calculate_hash ?L (row_entry_data ?row) ''genesis'' \<noteq> calculate_hash ?L partial_entry ''genesis''"
    by (simp add: db_eval)
  have r: "second_writer_refused example_lib" by (simp add: example_lib_def)
  have n: "\<not> second_writer_refused ?L" by simp
  have A: "append_all example_lib [example_entry] empty_database = empty_database
      \<and> vr_entries_checked
          (verify_hash_chain example_lib None (append_all example_lib [example_entry] empty_database)) = 0"
    using appended_ledger_fails_verification[of example_lib "[example_entry]"] r by blast
  have B: "\<not> vr_valid (verify_hash_chain ?L None (append_all ?L [partial_entry] empty_database))
      \<and> map ie_id (vr_invalid_entries
            (verify_hash_chain ?L None (append_all ?L [partial_entry] empty_database))) = [row_id ?row]"
    using appended_ledger_fails_verification[of ?L _ partial_entry ?row] n i s by blast
  have "row_id ?row = 1" by simp
  with B have C: "map ie_id (vr_invalid_entries
            (verify_hash_chain ?L None (append_all ?L [partial_entry] empty_database))) = [1]"
    by metis
  from A B C show ?thesis by blast
qed



subsection \<open>Entries that have the hashed keys\<close>

lemma fold_max_ge: "a \<le> fold max xs (a :: nat) \<and> (\<forall>x\<in>set xs. x \<le> fold max xs a)"
proof (induction xs arbitrary: a)
  case Nil
  then show ?case by simp
next
  case (Cons x xs)
  from Cons[of "max x a"] show ?case by auto
qed

lemma mismatches_snoc:
  "mismatches L prev (rows @ [r]) =
     mismatches L prev rows
     @ (if calculate_hash L (row_entry_data r) (if rows = [] then prev else row_hash (last rows))
           \<noteq> row_hash r
        then [\<lparr>ie_id = row_id r,
                ie_expected_hash =
                  calculate_hash L (row_entry_data r) (if rows = [] then prev else row_hash (last rows)),
                ie_actual_hash = row_hash r\<rparr>]
        else [])"
  by (induction rows arbitrary: prev) auto

lemma last_hash_sorted:
  "sorted (map row_id (audit_log d)) \<Longrightarrow>
   last_hash d = (if audit_log d = [] then ''genesis'' else row_hash (last (audit_log d)))"
  by (cases "audit_log d" rule: rev_cases) (simp_all add: last_hash_def order_by_id_sorted)

text \<open>An entry that has the keys \<open>timestamp\<close>, \<open>event_type\<close> (both with a string) and
  \<open>action_taken\<close> is stored as it was hashed.\<close>

lemma complete_entry_row:
  assumes "e_timestamp e = Some (Some ts)" and "e_event_type e = Some (Some ev)"
      and "e_action_taken e \<noteq> None"
  shows "\<exists>row. insert_row L e d = Inr row \<and> row_id row = next_id d
           \<and> row_hash row = calculate_hash L e (last_hash d)
           \<and> calculate_hash L (row_entry_data row) p = calculate_hash L e p"
  using assms
  by (auto simp: insert_row_def Let_def dict_get_default_def dict_get_def calculate_hash_def
      row_entry_data_def split: option.splits)

lemma append_complete_entry:
  assumes n: "\<not> second_writer_refused L"
      and c: "(\<exists>ts. e_timestamp e = Some (Some ts)) \<and> (\<exists>ev. e_event_type e = Some (Some ev))
              \<and> e_action_taken e \<noteq> None"
      and s: "sorted (map row_id (audit_log d))"
      and m: "mismatches L ''genesis'' (audit_log d) = []"
  shows "sorted (map row_id (audit_log (snd (add_audit_entry L e d))))
       \<and> mismatches L ''genesis'' (audit_log (snd (add_audit_entry L e d))) = []
       \<and> length (audit_log (snd (add_audit_entry L e d))) = length (audit_log d) + 1"
proof -
  let ?p = "if audit_log d = [] then ''genesis'' else row_hash (last (audit_log d))"
  from c obtain ts ev where "e_timestamp e = Some (Some ts)" "e_event_type e = Some (Some ev)"
    "e_action_taken e \<noteq> None" by blast
  from complete_entry_row[OF this, of L d ?p] obtain row where
    i: "insert_row L e d = Inr row" and id: "row_id row = next_id d"
    and h: "row_hash row = calculate_hash L e (last_hash d)"
    and q: "calculate_hash L (row_entry_data row) ?p = calculate_hash L e ?p"
    by blast
  from add_audit_entry_admitted[OF n i] have
    a: "audit_log (snd (add_audit_entry L e d)) = audit_log d @ [row]"
    by auto
  have big: "\<forall>r\<in>set (audit_log d). row_id r \<le> row_id row"
    using fold_max_ge[of "audit_seq d" "map row_id (audit_log d)"] id
    by (auto simp: next_id_def)
  have s': "sorted (map row_id (audit_log d @ [row]))"
    using s big by (simp add: sorted_append)
  have m': "mismatches L ''genesis'' (audit_log d @ [row]) = []"
    using m h q last_hash_sorted[OF s] by (simp add: mismatches_snoc)
  show ?thesis using a s' m' by simp
qed

lemma append_all_complete:
  assumes n: "\<not> second_writer_refused L"
  shows "\<forall>e\<in>set entries. (\<exists>ts. e_timestamp e = Some (Some ts))
             \<and> (\<exists>ev. e_event_type e = Some (Some ev)) \<and> e_action_taken e \<noteq> None \<Longrightarrow>
         sorted (map row_id (audit_log d)) \<Longrightarrow> mismatches L ''genesis'' (audit_log d) = [] \<Longrightarrow>
         sorted (map row_id (audit_log (append_all L entries d)))
         \<and> mismatches L ''genesis'' (audit_log (append_all L entries d)) = []
         \<and> length (audit_log (append_all L entries d)) = length (audit_log d) + length entries"
proof (induction entries arbitrary: d)
  case Nil
  then show ?case by simp
next
  case (Cons e es)
  from Cons.prems(1) have c: "(\<exists>ts. e_timestamp e = Some (Some ts))
      \<and> (\<exists>ev. e_event_type e = Some (Some ev)) \<and> e_action_taken e \<noteq> None"
    and rest: "\<forall>e\<in>set es. (\<exists>ts. e_timestamp e = Some (Some ts))
             \<and> (\<exists>ev. e_event_type e = Some (Some ev)) \<and> e_action_taken e \<noteq> None"
    by simp_all
  from append_complete_entry[OF n c Cons.prems(2,3)] have
    1: "sorted (map row_id (audit_log (snd (add_audit_entry L e d))))"
    and 2: "mismatches L ''genesis'' (audit_log (snd (add_audit_entry L e d))) = []"
    and 3: "length (audit_log (snd (add_audit_entry L e d))) = length (audit_log d) + 1"
    by simp_all
  from Cons.IH[OF rest 1 2] 3 show ?case by simp
qed

text \<open>If the storage engine let the second connection write, the ledger built from
  entries that have the hashed keys would verify.\<close>

lemma complete_entries_verify:
  assumes "\<not> second_writer_refused L"
      and "\<forall>e\<in>set entries. (\<exists>ts. e_timestamp e = Some (Some ts))
             \<and> (\<exists>ev. e_event_type e = Some (Some ev)) \<and> e_action_taken e \<noteq> None"
  shows "vr_valid (verify_hash_chain L None (append_all L entries empty_database))
       \<and> vr_invalid_entries (verify_hash_chain L None (append_all L entries empty_database)) = []
       \<and> vr_entries_checked (verify_hash_chain L None (append_all L entries empty_database))
           = length entries"
proof -
  have "sorted (map row_id (audit_log empty_database))"
    and "mismatches L ''genesis'' (audit_log empty_database) = []"
    by (simp_all add: empty_database_def)
  from append_all_complete[OF assms(1) assms(2) this]
  have s: "sorted (map row_id (audit_log (append_all L entries empty_database)))"
    and m: "mismatches L ''genesis'' (audit_log (append_all L entries empty_database)) = []"
    and l: "length (audit_log (append_all L entries empty_database)) = length entries"
    by (simp_all add: empty_database_def)
  from verify_hash_chain_full[OF s, of L] m l show ?thesis by simp
qed

end
